theory Spec2Isabelle
  imports Complex_Main "HOL-Library.Log_Nat"
begin

section \<open>Values of the host language\<close>

text \<open>
  The summarizer is TypeScript. Rows that come back from the CSV parser, from
  \<^verbatim>\<open>JSON.parse\<close> and from the HTTP client are untyped (\<^verbatim>\<open>any\<close>), so
  their cells are modelled as primitive values. A number is a binary64 value: a finite
  one is the rational it denotes, beside \<^verbatim>\<open>NaN\<close> and the two infinities. The
  sign of zero is not modelled. The numbers that enter a run from outside (cells, limits)
  are taken to be binary64 values already; what the arithmetic of the code produces is
  rounded, as below. Counts of rows, files and lines are integers far below
  \<open>2 ^ 53\<close>, where sums and differences of integers are exact; the report holds them
  as natural numbers and integers.
\<close>

datatype js_number = Finite rat | NaN | Infinity | NegInfinity

datatype js_value = JUndefined | JNull | JBool bool | JNum js_number | JStr string

type_synonym js_object = "(string \<times> js_value) list"

text \<open>Property access \<^verbatim>\<open>obj.key\<close>: a missing property reads as \<^verbatim>\<open>undefined\<close>.\<close>

definition get_prop :: "js_object \<Rightarrow> string \<Rightarrow> js_value" where
  "get_prop obj k = (case map_of obj k of None \<Rightarrow> JUndefined | Some v \<Rightarrow> v)"

text \<open>Property assignment \<^verbatim>\<open>obj[key] = v\<close>: an existing property is overwritten.\<close>

fun set_prop :: "string \<Rightarrow> js_value \<Rightarrow> js_object \<Rightarrow> js_object" where
  "set_prop k v [] = [(k, v)]"
| "set_prop k v ((k', v') # obj) =
     (if k' = k then (k, v) # obj else (k', v') # set_prop k v obj)"

fun js_neg :: "js_number \<Rightarrow> js_number" where
  "js_neg (Finite a) = Finite (- a)"
| "js_neg NaN = NaN"
| "js_neg Infinity = NegInfinity"
| "js_neg NegInfinity = Infinity"

text \<open>The sign of an infinite result; zero counts as positive zero.\<close>

definition signed_infinity :: "bool \<Rightarrow> js_number" where
  "signed_infinity negative = (if negative then NegInfinity else Infinity)"

text \<open>
  Every arithmetic operation returns the binary64 value nearest to the exact result, a tie
  going to the value with an even significand. \<open>exponent_of x\<close> is the exponent of the
  leading bit of a positive rational \<open>x\<close>: the integer \<open>k\<close> with
  \<open>2 powi k \<le> x < 2 powi (k + 1)\<close>. A significand has 53 bits, so the binary64 values
  around \<open>x\<close> are the multiples of \<open>2 powi e\<close>, where \<open>e\<close> is that exponent less
  52, and -1074 in the subnormal range. A rounded result of magnitude \<open>2 powi 1024\<close> or
  more is an infinity.
\<close>

definition exponent_of :: "rat \<Rightarrow> int" where
  "exponent_of x = (if 1 \<le> x then bitlen \<lfloor>x\<rfloor> - 1 else - bitlen (\<lceil>1 / x\<rceil> - 1))"

definition round_even :: "rat \<Rightarrow> int" where
  "round_even y =
     (let f = \<lfloor>y\<rfloor>; r = y - of_int f
      in if r < 1 / 2 then f else if 1 / 2 < r then f + 1 else if even f then f else f + 1)"

definition binary64 :: "rat \<Rightarrow> js_number" where
  "binary64 x =
     (if x = 0 then Finite 0
      else (let e = max (exponent_of \<bar>x\<bar> - 52) (- 1074);
                y = of_int (round_even (x / 2 powi e)) * 2 powi e
            in if 2 powi 1024 \<le> \<bar>y\<bar> then signed_infinity (x < 0) else Finite y))"

fun js_add :: "js_number \<Rightarrow> js_number \<Rightarrow> js_number" where
  "js_add (Finite a) (Finite b) = binary64 (a + b)"
| "js_add NaN _ = NaN"
| "js_add _ NaN = NaN"
| "js_add Infinity NegInfinity = NaN"
| "js_add NegInfinity Infinity = NaN"
| "js_add Infinity _ = Infinity"
| "js_add _ Infinity = Infinity"
| "js_add NegInfinity _ = NegInfinity"
| "js_add _ NegInfinity = NegInfinity"

definition js_sub :: "js_number \<Rightarrow> js_number \<Rightarrow> js_number" where
  "js_sub a b = js_add a (js_neg b)"

fun js_mul :: "js_number \<Rightarrow> js_number \<Rightarrow> js_number" where
  "js_mul (Finite a) (Finite b) = binary64 (a * b)"
| "js_mul NaN _ = NaN"
| "js_mul _ NaN = NaN"
| "js_mul (Finite a) Infinity = (if a = 0 then NaN else signed_infinity (a < 0))"
| "js_mul (Finite a) NegInfinity = (if a = 0 then NaN else signed_infinity (0 < a))"
| "js_mul Infinity (Finite b) = (if b = 0 then NaN else signed_infinity (b < 0))"
| "js_mul NegInfinity (Finite b) = (if b = 0 then NaN else signed_infinity (0 < b))"
| "js_mul Infinity Infinity = Infinity"
| "js_mul NegInfinity NegInfinity = Infinity"
| "js_mul Infinity NegInfinity = NegInfinity"
| "js_mul NegInfinity Infinity = NegInfinity"

text \<open>
  Division never raises: \<^verbatim>\<open>0 / 0\<close> is \<^verbatim>\<open>NaN\<close>, and a non-zero
  number over zero is an infinity.
\<close>

fun js_div :: "js_number \<Rightarrow> js_number \<Rightarrow> js_number" where
  "js_div (Finite a) (Finite b) =
     (if b = 0 then (if a = 0 then NaN else signed_infinity (a < 0)) else binary64 (a / b))"
| "js_div NaN _ = NaN"
| "js_div _ NaN = NaN"
| "js_div (Finite a) Infinity = Finite 0"
| "js_div (Finite a) NegInfinity = Finite 0"
| "js_div Infinity (Finite b) = signed_infinity (b < 0)"
| "js_div NegInfinity (Finite b) = signed_infinity (0 \<le> b)"
| "js_div Infinity Infinity = NaN"
| "js_div Infinity NegInfinity = NaN"
| "js_div NegInfinity Infinity = NaN"
| "js_div NegInfinity NegInfinity = NaN"

text \<open>\<^verbatim>\<open>a > b\<close> on numbers: every comparison with \<^verbatim>\<open>NaN\<close> is false.\<close>

fun js_gt_number :: "js_number \<Rightarrow> js_number \<Rightarrow> bool" where
  "js_gt_number (Finite a) (Finite b) = (b < a)"
| "js_gt_number NaN _ = False"
| "js_gt_number _ NaN = False"
| "js_gt_number Infinity Infinity = False"
| "js_gt_number Infinity _ = True"
| "js_gt_number NegInfinity _ = False"
| "js_gt_number (Finite a) NegInfinity = True"
| "js_gt_number (Finite a) Infinity = False"

text \<open>
  The conversions between numbers and strings belong to the language runtime. They are
  parameters of the model: every theorem below holds whatever they compute.
\<close>

record js_runtime =
  NumberToString :: "js_number \<Rightarrow> string"
  StringToNumber :: "string \<Rightarrow> js_number"

fun ToNumber :: "js_runtime \<Rightarrow> js_value \<Rightarrow> js_number" where
  "ToNumber rt JUndefined = NaN"
| "ToNumber rt JNull = Finite 0"
| "ToNumber rt (JBool b) = Finite (if b then 1 else 0)"
| "ToNumber rt (JNum n) = n"
| "ToNumber rt (JStr s) = StringToNumber rt s"

fun ToString :: "js_runtime \<Rightarrow> js_value \<Rightarrow> string" where
  "ToString rt JUndefined = ''undefined''"
| "ToString rt JNull = ''null''"
| "ToString rt (JBool b) = (if b then ''true'' else ''false'')"
| "ToString rt (JNum n) = NumberToString rt n"
| "ToString rt (JStr s) = s"

fun is_string :: "js_value \<Rightarrow> bool" where
  "is_string (JStr s) = True"
| "is_string _ = False"

text \<open>\<^verbatim>\<open>a + b\<close>: concatenation as soon as one operand is a string.\<close>

definition js_plus :: "js_runtime \<Rightarrow> js_value \<Rightarrow> js_value \<Rightarrow> js_value" where
  "js_plus rt a b =
     (if is_string a \<or> is_string b then JStr (ToString rt a @ ToString rt b)
      else JNum (js_add (ToNumber rt a) (ToNumber rt b)))"

definition js_minus :: "js_runtime \<Rightarrow> js_value \<Rightarrow> js_value \<Rightarrow> js_value" where
  "js_minus rt a b = JNum (js_sub (ToNumber rt a) (ToNumber rt b))"

definition js_times :: "js_runtime \<Rightarrow> js_value \<Rightarrow> js_value \<Rightarrow> js_value" where
  "js_times rt a b = JNum (js_mul (ToNumber rt a) (ToNumber rt b))"

definition js_divide :: "js_runtime \<Rightarrow> js_value \<Rightarrow> js_value \<Rightarrow> js_value" where
  "js_divide rt a b = JNum (js_div (ToNumber rt a) (ToNumber rt b))"

text \<open>\<^verbatim>\<open>v > 0\<close>: a comparison with a number literal is numeric.\<close>

definition js_gt_zero :: "js_runtime \<Rightarrow> js_value \<Rightarrow> bool" where
  "js_gt_zero rt v = js_gt_number (ToNumber rt v) (Finite 0)"

text \<open>\<^verbatim>\<open>v ?? d\<close>: the default replaces \<^verbatim>\<open>null\<close> and \<^verbatim>\<open>undefined\<close> only.\<close>

definition nullish :: "js_value \<Rightarrow> js_value \<Rightarrow> js_value" where
  "nullish v d = (if v = JUndefined \<or> v = JNull then d else v)"

definition js_count :: "'a list \<Rightarrow> js_value" where
  "js_count xs = JNum (Finite (of_nat (length xs)))"

section \<open>Metric derivation\<close>

text \<open>
  \<^verbatim>\<open>calculateCoveragePercentage(linesCovered, linesUncovered)\<close>:
  \<^verbatim>\<open>totalLines > 0 ? (linesCovered / totalLines) * 100 : 0\<close>.
\<close>

definition calculateCoveragePercentage :: "js_runtime \<Rightarrow> js_value \<Rightarrow> js_value \<Rightarrow> js_value" where
  "calculateCoveragePercentage rt linesCovered linesUncovered =
     (let totalLines = js_plus rt linesCovered linesUncovered
      in if js_gt_zero rt totalLines
         then js_times rt (js_divide rt linesCovered totalLines) (JNum (Finite 100))
         else JNum (Finite 0))"

text \<open>\<^verbatim>\<open>a === b\<close> on primitives: \<^verbatim>\<open>NaN\<close> equals nothing, itself included.\<close>

definition strict_eq :: "js_value \<Rightarrow> js_value \<Rightarrow> bool" where
  "strict_eq a b = (a = b \<and> a \<noteq> JNum NaN)"

text \<open>Truthiness, as \<^verbatim>\<open>||\<close> and \<^verbatim>\<open>if\<close> read a value.\<close>

fun js_truthy :: "js_value \<Rightarrow> bool" where
  "js_truthy JUndefined = False"
| "js_truthy JNull = False"
| "js_truthy (JBool b) = b"
| "js_truthy (JNum n) = (n \<noteq> NaN \<and> n \<noteq> Finite 0)"
| "js_truthy (JStr s) = (s \<noteq> [])"

definition js_or :: "js_value \<Rightarrow> js_value \<Rightarrow> js_value" where
  "js_or a b = (if js_truthy a then a else b)"

subsection \<open>Strings\<close>

text \<open>\<^verbatim>\<open>s.split(c)\<close> for a one-character separator: always at least one piece.\<close>

fun split_on :: "char \<Rightarrow> string \<Rightarrow> string list" where
  "split_on c [] = [[]]"
| "split_on c (x # xs) =
     (if x = c then [] # split_on c xs
      else (case split_on c xs of [] \<Rightarrow> [[x]] | p # ps \<Rightarrow> (x # p) # ps))"

text \<open>
  \<^verbatim>\<open>s.trim()\<close>, over the ASCII white space (tab, line feed, vertical tab, form feed,
  carriage return, space); the white space beyond ASCII is not modelled.
\<close>

definition is_space :: "char \<Rightarrow> bool" where
  "is_space c = (c \<in> set [CHR 0x09, CHR 0x0A, CHR 0x0B, CHR 0x0C, CHR 0x0D, CHR 0x20])"

definition trim :: "string \<Rightarrow> string" where
  "trim s = rev (dropWhile is_space (rev (dropWhile is_space s)))"

fun starts_with :: "string \<Rightarrow> string \<Rightarrow> bool" where
  "starts_with s [] = True"
| "starts_with [] (p # ps) = False"
| "starts_with (c # cs) (p # ps) = (c = p \<and> starts_with cs ps)"

text \<open>\<^verbatim>\<open>s.includes(sub)\<close>.\<close>

fun str_includes :: "string \<Rightarrow> string \<Rightarrow> bool" where
  "str_includes [] sub = (sub = [])"
| "str_includes (c # cs) sub = (starts_with (c # cs) sub \<or> str_includes cs sub)"

section \<open>Errors and the world outside the summarizer\<close>

text \<open>
  A thrown \<^verbatim>\<open>Error\<close>. One thrown by \<^verbatim>\<open>execSync\<close> carries the child
  process's \<^verbatim>\<open>stderr\<close>; one thrown by a file read or by the CSV parser has none.
\<close>

record js_error =
  message :: string
  stderr :: "string option"

type_synonym 'a result = "js_error + 'a"

definition try_bind :: "'a result \<Rightarrow> ('a \<Rightarrow> 'b result) \<Rightarrow> 'b result" where
  "try_bind r f = (case r of Inl e \<Rightarrow> Inl e | Inr x \<Rightarrow> f x)"

text \<open>
  What a command and the read and parse of its output file come to: the rows, or the
  first error thrown. The code calls the CSV parser with \<^verbatim>\<open>{ columns: true }\<close> and
  no cast, so every cell of a row it returns is a string; the model admits any primitive
  in a cell, and the properties below say where the type of a cell matters.
\<close>

type_synonym query_outcome = "js_object list result"

text \<open>
  What \<^verbatim>\<open>JSON.parse\<close> of a \<^verbatim>\<open>sfdx ... --json\<close> output holds: no
  \<^verbatim>\<open>result\<close>, or a \<^verbatim>\<open>result\<close> with its \<^verbatim>\<open>records\<close>.
\<close>

datatype sfdx_response = NoResult | Records "js_object list"

record OrgInfo =
  username :: string
  accessToken :: string
  instanceUrl :: string
  orgId :: string

text \<open>
  A source file as \<^verbatim>\<open>countCodeLines\<close> measures it: the number of its lines that are
  not blank, and the number of matches of the comment pattern.
\<close>

record source_file =
  nonBlankLines :: nat
  commentMatches :: nat

text \<open>
  One run's outcomes of everything the summarizer calls outside its own code: child
  processes, the file system, the HTTP client, the clock. The command strings, paths and
  credentials that the code builds only select these outcomes, so they are not arguments
  of the model's functions. A field of type \<open>'a result\<close> is what a call gave, or the
  error it threw; a field of type \<open>js_error option\<close> is the error of a call made for
  its effect, if it threw.
  \<^item> \<open>orgDisplay\<close>: the identity read from the output of the org display command.
  \<^item> \<open>dateNow\<close>, \<open>dirname\<close>: \<^verbatim>\<open>Date.now().toString()\<close> and \<^verbatim>\<open>__dirname\<close>.
  \<^item> \<open>dataPoints\<close>: the imported default list of metadata types.
  \<^item> \<open>existsDir\<close>, \<open>mkdirDir\<close>: the summary directory.
  \<^item> \<open>hcsQuery\<close>, \<open>hcrQuery\<close>: the two health check queries, each with the read and
    parse of its output file.
  \<^item> \<open>limitsGet\<close>: the body of the limits response, as the list of its keys and
    values in iteration order; \<open>None\<close> is a value that is not an object.
  \<^item> \<open>projectSetup\<close>: the two directory changes and three commands that open the
    static analysis phase; \<open>scannerResults\<close>: the content of the scanner's file; the five
    \<open>...Files\<close>: the source files found under each directory and read;
    \<open>chdirBack\<close>: the directory change that closes the phase.
  \<^item> \<open>testRunSubmit\<close>: the test run command; \<open>testRunId\<close>: what
    \<^verbatim>\<open>extractTestRunId\<close> finds in its output (it returns \<^verbatim>\<open>null\<close> on any failure);
    \<open>asyncApexJobQuery t\<close>: the status query of tick \<open>t\<close>; the other queries of the
    test phase, once each, in the order of the calls.
  \<^item> \<open>dataPointQuery i d\<close>: the inventory query number \<open>i\<close>, for data point \<open>d\<close>.
  \<^item> \<open>cleanUpDirectory\<close>, \<open>writeSummary\<close>: the two steps of \<^verbatim>\<open>finish\<close>.
\<close>

record env =
  jsRuntime :: js_runtime
  orgDisplay :: "OrgInfo result"
  dateNow :: string
  dirname :: string
  dataPoints :: "string list"
  existsDir :: bool
  mkdirDir :: "js_error option"
  hcsQuery :: query_outcome
  hcrQuery :: query_outcome
  limitsGet :: "(string \<times> js_object option) list result"
  projectSetup :: "js_error option"
  scannerResults :: "string result"
  classesFiles :: "source_file list result"
  triggersFiles :: "source_file list result"
  auraFiles :: "source_file list result"
  lwcFiles :: "source_file list result"
  staticresourcesFiles :: "source_file list result"
  chdirBack :: "js_error option"
  testRunSubmit :: "js_error option"
  testRunId :: "string option"
  asyncApexJobQuery :: "nat \<Rightarrow> query_outcome"
  testRunResultQuery :: query_outcome
  orgWideCoverageQuery :: query_outcome
  flowCoverageFirst :: "sfdx_response result"
  flowCoverageSecond :: "sfdx_response result"
  flowDefinitionViews :: "sfdx_response result"
  apexClassCoverageQuery :: query_outcome
  dataPointQuery :: "nat \<Rightarrow> string \<Rightarrow> query_outcome"
  cleanUpDirectory :: "js_error option"
  writeSummary :: "js_error option"

section \<open>The report\<close>

record ComponentSummary =
  Total :: nat
  LastModifiedDate :: js_value

record line_count =
  locTotal :: int
  locComments :: int
  locCode :: int

record ApexLines =
  apexTotal :: int
  apexComments :: int
  apexCode :: int
  ApexClass :: line_count
  ApexTrigger :: line_count

record JavaScriptLines =
  jsTotal :: int
  jsComments :: int
  jsCode :: int
  AuraDefinitionBundle :: line_count
  LightningComponentBundle :: line_count
  StaticResource :: line_count

record CodeDetails =
  Apex :: ApexLines
  JavaScript :: JavaScriptLines

record CodeAnalysis =
  Risks :: nat
  RiskDetails :: "js_object list"
  LinesOfCode :: int
  RisksPerLineRatio :: js_number
  LineDetails :: CodeDetails

record HealthCheckSummary =
  Score :: js_value
  Criteria :: nat
  Compliant :: int
  hcRisks :: nat
  hcDetails :: "js_object list"

record Limit =
  limName :: string
  limMax :: js_value
  limRemaining :: js_value
  limUsage :: js_value
  limDescription :: string

record LimitSummary =
  Applicable :: nat
  Reached :: nat
  Unattained :: int
  limDetails :: "Limit list"

record Coverage =
  covName :: js_value
  CoveragePercentage :: js_value

record TestCoverage =
  covTotal :: js_value
  covDetails :: "Coverage list"

record TestSummary =
  ApexUnitTests :: js_value
  TestDuration :: js_value
  TestMethodsCompleted :: js_value
  TestMethodsFailed :: js_value
  TestOutcome :: js_value
  ApexCoverageDetails :: TestCoverage
  FlowCoverageDetails :: TestCoverage

record OrgSummary =
  Timestamp :: string
  ResultState :: string
  OrgId :: string
  Username :: string
  OrgInstanceURL :: string
  HealthCheck :: "HealthCheckSummary option"
  Limits :: "LimitSummary option"
  Code :: "CodeAnalysis option"
  Tests :: "TestSummary option"
  Metadata :: "(string \<rightharpoonup> ComponentSummary) option"

record flags =
  outputdirectory :: "string option"
  metadata :: "string option"
  keepdata :: bool
  healthcheck :: bool
  limits :: bool
  codeanalysis :: bool
  tests :: bool
  targetusername :: "string option"

section \<open>Queries\<close>

text \<open>
  \<^verbatim>\<open>handleQueryError(dataPoint, error, errors)\<close> reads
  \<^verbatim>\<open>error.stderr.includes(...)\<close> first: on an error without
  \<^verbatim>\<open>stderr\<close> that read throws a \<^verbatim>\<open>TypeError\<close>. Otherwise it pushes
  \<^verbatim>\<open>null\<close> (unsupported type) or the error onto the list it was given.
\<close>

definition stderr_TypeError :: js_error where
  "stderr_TypeError =
     \<lparr>message = ''Cannot read properties of undefined (reading includes)'', stderr = None\<rparr>"

definition handleQueryError ::
  "string \<Rightarrow> js_error \<Rightarrow> js_error option list \<Rightarrow> js_error option list result" where
  "handleQueryError dataPoint error errs =
     (case stderr error of
        None \<Rightarrow> Inl stderr_TypeError
      | Some err \<Rightarrow>
          (let isUnsupportedTypeError =
                 (str_includes err ''sObject type'' \<and> str_includes err ''is not supported'')
           in if isUnsupportedTypeError then Inr (errs @ [None])
              else Inr (errs @ [Some error])))"

text \<open>
  \<^verbatim>\<open>queryMetadata(query, outputCsv, orgAlias)\<close>: the rows, and on an error
  \<^verbatim>\<open>handleQueryError(query, error, [])\<close> on a fresh list, then \<^verbatim>\<open>[]\<close>.
  The error reaches the caller only when \<^verbatim>\<open>handleQueryError\<close> itself throws.
\<close>

definition queryMetadata :: "string \<Rightarrow> query_outcome \<Rightarrow> js_object list result" where
  "queryMetadata query outcome =
     (case outcome of
        Inr rows \<Rightarrow> Inr rows
      | Inl error \<Rightarrow>
          (case handleQueryError query error [] of
             Inl thrown \<Rightarrow> Inl thrown
           | Inr _ \<Rightarrow> Inr []))"

definition buildQuery :: "string \<Rightarrow> string" where
  "buildQuery dataPoint =
     ''SELECT CreatedBy.Name, CreatedDate, Id, LastModifiedBy.Name, LastModifiedDate FROM ''
       @ dataPoint @ '' ORDER BY LastModifiedDate DESC''"

section \<open>Tenant identity and the base summary\<close>

definition emptyOrgInfo :: OrgInfo where
  "emptyOrgInfo = \<lparr>username = [], accessToken = [], instanceUrl = [], orgId = []\<rparr>"

text \<open>\<^verbatim>\<open>getOrgInfo\<close> catches its own error, logs it, and returns the empty identity.\<close>

definition getOrgInfo :: "env \<Rightarrow> OrgInfo" where
  "getOrgInfo w = (case orgDisplay w of Inr found \<Rightarrow> found | Inl error \<Rightarrow> emptyOrgInfo)"

definition buildBaseSummary :: "env \<Rightarrow> OrgInfo option \<Rightarrow> OrgSummary" where
  "buildBaseSummary w given =
     (let found = (case given of None \<Rightarrow> getOrgInfo w | Some i \<Rightarrow> i)
      in \<lparr>Timestamp = dateNow w, ResultState = ''Pending'', OrgId = orgId found,
          Username = username found, OrgInstanceURL = instanceUrl found,
          HealthCheck = None, Limits = None, Code = None, Tests = None, Metadata = None\<rparr>)"

text \<open>
  \<^verbatim>\<open>const baseSummary = orgSummary || (await buildBaseSummary(...))\<close>: the report as
  it stands before the first phase.
\<close>

definition initialSummary :: "env \<Rightarrow> OrgSummary option \<Rightarrow> OrgSummary" where
  "initialSummary w orgSummary =
     (case orgSummary of Some given \<Rightarrow> given | None \<Rightarrow> buildBaseSummary w (Some (getOrgInfo w)))"

section \<open>Phases\<close>

text \<open>An entry of the run's error list: \<^verbatim>\<open>{ <tag>: error.message }\<close>.\<close>

definition phaseError :: "string \<Rightarrow> js_error \<Rightarrow> js_object" where
  "phaseError tag error = [(tag, JStr (message error))]"

type_synonym run_state = "OrgSummary \<times> js_object list"

subsection \<open>Health score\<close>

definition index_TypeError :: js_error where
  "index_TypeError =
     \<lparr>message = ''Cannot read properties of undefined (reading Score)'', stderr = None\<rparr>"

definition getHealthCheckScore :: "env \<Rightarrow> HealthCheckSummary result" where
  "getHealthCheckScore w =
     try_bind (hcsQuery w) (\<lambda>hcScore.
     try_bind (hcrQuery w) (\<lambda>risks.
       (let hcRisksFiltered = filter (\<lambda>risk. get_prop risk ''RiskType'' \<noteq> JStr ''MEETS_STANDARD'') risks
        in case hcScore of
             [] \<Rightarrow> Inl index_TypeError
           | first # _ \<Rightarrow>
               Inr \<lparr>Score = get_prop first ''Score'', Criteria = length risks,
                    Compliant = int (length risks) - int (length hcRisksFiltered),
                    hcRisks = length hcRisksFiltered, hcDetails = risks\<rparr>)))"

definition healthPhase :: "env \<Rightarrow> flags \<Rightarrow> run_state \<Rightarrow> run_state" where
  "healthPhase w fl st =
     (case st of (baseSummary, errs) \<Rightarrow>
        if healthcheck fl then
          (case getHealthCheckScore w of
             Inr fragment \<Rightarrow> (baseSummary\<lparr>HealthCheck := Some fragment\<rparr>, errs)
           | Inl error \<Rightarrow> (baseSummary, errs @ [phaseError ''getHealthCheckScoreError'' error]))
        else st)"

subsection \<open>Resource limits\<close>

text \<open>
  One step of the loop of \<^verbatim>\<open>checkLimits\<close> over the keys of the response. An entry
  whose value is not an object (\<open>None\<close>), or lacks \<^verbatim>\<open>Max\<close> or
  \<^verbatim>\<open>Remaining\<close>, is skipped with a warning.
\<close>

definition limitStep :: "js_runtime \<Rightarrow> Limit list \<Rightarrow> string \<times> js_object option \<Rightarrow> Limit list" where
  "limitStep r acc entry =
     (case entry of (key, limitInfo) \<Rightarrow>
        (case limitInfo of
           None \<Rightarrow> acc
         | Some props \<Rightarrow>
             if get_prop props ''Max'' \<noteq> JUndefined \<and> get_prop props ''Remaining'' \<noteq> JUndefined
             then acc @ [\<lparr>limName = key, limMax = get_prop props ''Max'',
                          limRemaining = get_prop props ''Remaining'',
                          limUsage = js_minus r (get_prop props ''Max'') (get_prop props ''Remaining''),
                          limDescription = ''Description for '' @ key\<rparr>]
             else acc))"

text \<open>
  \<^verbatim>\<open>checkLimits\<close> catches the error of the HTTP call itself, logs it, and returns the
  list as it stands: empty.
\<close>

definition checkLimits :: "js_runtime \<Rightarrow> (string \<times> js_object option) list result \<Rightarrow> Limit list" where
  "checkLimits r response =
     (case response of
        Inr limitsData \<Rightarrow> foldl (limitStep r) [] limitsData
      | Inl error \<Rightarrow> [])"

definition limitSummary :: "Limit list \<Rightarrow> LimitSummary" where
  "limitSummary lims =
     (let applicable = length lims;
          reached = length (filter (\<lambda>l. limRemaining l = JNum (Finite 0)) lims)
      in \<lparr>Applicable = applicable, Reached = reached,
          Unattained = int applicable - int reached, limDetails = lims\<rparr>)"

text \<open>
  The limits phase of \<^verbatim>\<open>summarizeOrg\<close>. Nothing inside its \<^verbatim>\<open>try\<close> block
  throws (\<^verbatim>\<open>checkLimits\<close> has caught the error of the call), so its
  \<^verbatim>\<open>catch\<close>, which would push \<^verbatim>\<open>checkLimitsError\<close>, is never entered.
\<close>

definition limitsPhase :: "env \<Rightarrow> flags \<Rightarrow> run_state \<Rightarrow> run_state" where
  "limitsPhase w fl st =
     (case st of (baseSummary, errs) \<Rightarrow>
        if limits fl then
          (baseSummary\<lparr>Limits := Some (limitSummary (checkLimits (jsRuntime w) (limitsGet w)))\<rparr>, errs)
        else st)"

subsection \<open>Static risk analysis\<close>

text \<open>
  \<^verbatim>\<open>countCodeLines\<close> sums the two measurements over the files found; it throws when
  a directory or a file cannot be read.
\<close>

definition countCodeLines :: "source_file list result \<Rightarrow> line_count result" where
  "countCodeLines found =
     try_bind found (\<lambda>codeFiles.
       (let commentLines = foldl (\<lambda>n f. n + commentMatches f) 0 codeFiles;
            totalLines = foldl (\<lambda>n f. n + nonBlankLines f) 0 codeFiles
        in Inr \<lparr>locTotal = int totalLines, locComments = int commentLines,
                locCode = int totalLines - int commentLines\<rparr>))"

definition calculateCodeLines :: "env \<Rightarrow> CodeDetails result" where
  "calculateCodeLines w =
     try_bind (countCodeLines (classesFiles w)) (\<lambda>apexClassCL.
     try_bind (countCodeLines (triggersFiles w)) (\<lambda>apexTriggerCL.
     try_bind (countCodeLines (auraFiles w)) (\<lambda>auraCL.
     try_bind (countCodeLines (lwcFiles w)) (\<lambda>lwcCL.
     try_bind (countCodeLines (staticresourcesFiles w)) (\<lambda>staticResourceCL.
       Inr \<lparr>Apex =
              \<lparr>apexTotal = locTotal apexClassCL + locTotal apexTriggerCL,
               apexComments = locComments apexClassCL + locComments apexTriggerCL,
               apexCode = locCode apexClassCL + locCode apexTriggerCL,
               ApexClass = apexClassCL, ApexTrigger = apexTriggerCL\<rparr>,
            JavaScript =
              \<lparr>jsTotal = locTotal auraCL + locTotal lwcCL + locTotal staticResourceCL,
               jsComments = locComments auraCL + locComments lwcCL + locComments staticResourceCL,
               jsCode = locCode auraCL + locCode lwcCL + locCode staticResourceCL,
               AuraDefinitionBundle = auraCL, LightningComponentBundle = lwcCL,
               StaticResource = staticResourceCL\<rparr>\<rparr>)))))"

text \<open>
  \<^verbatim>\<open>readCsvFile\<close>: the first line gives the header names; every further line, the
  empty ones included, gives one record.
\<close>

definition csvCell :: "string \<Rightarrow> string" where
  "csvCell v = trim (filter (\<lambda>c. c \<noteq> CHR 0x22) v)"

definition csvRecord :: "string list \<Rightarrow> string \<Rightarrow> js_object" where
  "csvRecord headerNames line =
     (let newValues = map csvCell (split_on CHR '','' line)
      in foldl (\<lambda>acc (header, i).
                  set_prop header (if i < length newValues then JStr (newValues ! i) else JUndefined) acc)
           [] (zip headerNames [0..<length headerNames]))"

definition readCsvFile :: "string \<Rightarrow> js_object list" where
  "readCsvFile fileContent =
     (case split_on CHR 0x0A fileContent of
        [] \<Rightarrow> []
      | headerLine # rest \<Rightarrow>
          map (csvRecord (map csvCell (split_on CHR '','' headerLine))) rest)"

definition preprocessResults :: "env \<Rightarrow> js_object list result" where
  "preprocessResults w = try_bind (scannerResults w) (\<lambda>fileContent. Inr (readCsvFile fileContent))"

text \<open>The \<^verbatim>\<open>Code\<close> fragment; the ratio is a plain, unguarded division.\<close>

definition codeFragment :: "js_object list \<Rightarrow> CodeDetails \<Rightarrow> CodeAnalysis" where
  "codeFragment results codeLines =
     \<lparr>Risks = length results, RiskDetails = results,
      LinesOfCode = apexTotal (Apex codeLines) + jsTotal (JavaScript codeLines),
      RisksPerLineRatio =
        js_div (Finite (of_nat (length results)))
               (Finite (of_int (apexTotal (Apex codeLines) + jsTotal (JavaScript codeLines)))),
      LineDetails = codeLines\<rparr>"

text \<open>
  The phase: the project set-up (two directory changes and three commands, as one
  outcome), the scanner's results, the line counts, the fragment, and the directory
  change back, which runs after the fragment is stored.
\<close>

definition codePhase :: "env \<Rightarrow> flags \<Rightarrow> run_state \<Rightarrow> run_state" where
  "codePhase w fl st =
     (case st of (baseSummary, errs) \<Rightarrow>
        if codeanalysis fl then
          (case projectSetup w of
             Some error \<Rightarrow> (baseSummary, errs @ [phaseError ''calculateLinesOfCodeError'' error])
           | None \<Rightarrow>
               (case preprocessResults w of
                  Inl error \<Rightarrow> (baseSummary, errs @ [phaseError ''calculateLinesOfCodeError'' error])
                | Inr results \<Rightarrow>
                    (case calculateCodeLines w of
                       Inl error \<Rightarrow> (baseSummary, errs @ [phaseError ''calculateLinesOfCodeError'' error])
                     | Inr codeLines \<Rightarrow>
                         (let stored = baseSummary\<lparr>Code := Some (codeFragment results codeLines)\<rparr>
                          in case chdirBack w of
                               Some error \<Rightarrow> (stored, errs @ [phaseError ''calculateLinesOfCodeError'' error])
                             | None \<Rightarrow> (stored, errs)))))
        else st)"

subsection \<open>Test execution\<close>

record test_run_details =
  outcome :: string
  runtime :: js_value
  methodsCompleted :: js_value
  methodsFailed :: js_value

definition jobQuery :: "string \<Rightarrow> string" where
  "jobQuery jobId =
     ''SELECT Id, Status FROM AsyncApexJob WHERE Id = '' @ [CHR 0x27] @ jobId @ [CHR 0x27] @ '' LIMIT 1''"

text \<open>
  The body of the loop of \<^verbatim>\<open>pollTestRunResult\<close> at tick \<open>tick\<close>: the status after
  the query. No row leaves the status as it was; only an error thrown out of
  \<^verbatim>\<open>queryMetadata\<close> reaches the \<^verbatim>\<open>catch\<close> that sets \<^verbatim>\<open>'Failed'\<close>.
\<close>

definition pollTick :: "env \<Rightarrow> string \<Rightarrow> nat \<Rightarrow> js_value \<Rightarrow> js_value" where
  "pollTick w jobId tick status =
     (case queryMetadata (jobQuery jobId) (asyncApexJobQuery w tick) of
        Inr rows \<Rightarrow> (case rows of [] \<Rightarrow> status | testJob # _ \<Rightarrow> get_prop testJob ''Status'')
      | Inl error \<Rightarrow> JStr ''Failed'')"

text \<open>
  The loop, with fuel: \<open>None\<close> when the status is still \<^verbatim>\<open>'Queued'\<close> or
  \<^verbatim>\<open>'Processing'\<close> after \<open>fuel\<close> ticks. Every tick ends with a wait of 5000
  milliseconds; the result is the final status and the time waited.
\<close>

fun pollLoop :: "nat \<Rightarrow> env \<Rightarrow> string \<Rightarrow> nat \<Rightarrow> js_value \<Rightarrow> (js_value \<times> nat) option" where
  "pollLoop 0 w jobId tick status =
     (if status = JStr ''Queued'' \<or> status = JStr ''Processing'' then None
      else Some (status, 5000 * tick))"
| "pollLoop (Suc fuel) w jobId tick status =
     (if status = JStr ''Queued'' \<or> status = JStr ''Processing''
      then pollLoop fuel w jobId (Suc tick) (pollTick w jobId tick status)
      else Some (status, 5000 * tick))"

definition pollTestRunResult :: "nat \<Rightarrow> env \<Rightarrow> string \<Rightarrow> (js_value \<times> nat) option" where
  "pollTestRunResult fuel w jobId = pollLoop fuel w jobId 0 (JStr ''Queued'')"

definition getTestRunDetails :: "env \<Rightarrow> string \<Rightarrow> test_run_details option" where
  "getTestRunDetails w jobId =
     (case queryMetadata
             (''SELECT Id, AsyncApexJobId, Status, StartTime, EndTime, TestTime, MethodsCompleted, MethodsFailed FROM ApexTestRunResult WHERE AsyncApexJobId = ''
                @ [CHR 0x27] @ jobId @ [CHR 0x27])
             (testRunResultQuery w) of
        Inl error \<Rightarrow> None
      | Inr results \<Rightarrow>
          (case results of
             [] \<Rightarrow> None
           | testRunResult # _ \<Rightarrow>
               Some \<lparr>outcome =
                       (if get_prop testRunResult ''Status'' = JStr ''Completed''
                           \<and> get_prop testRunResult ''MethodsFailed'' = JNum (Finite 0)
                        then ''Pass'' else ''Fail''),
                     runtime = get_prop testRunResult ''TestTime'',
                     methodsCompleted = get_prop testRunResult ''MethodsCompleted'',
                     methodsFailed = get_prop testRunResult ''MethodsFailed''\<rparr>))"

text \<open>
  \<^verbatim>\<open>getOrgWideApexCoverage\<close>:
  \<^verbatim>\<open>results.reduce((sum, result) => sum + result.PercentCovered, 0) / results.length\<close>,
  and \<^verbatim>\<open>null\<close> from the \<^verbatim>\<open>catch\<close>.
\<close>

definition getOrgWideApexCoverage :: "env \<Rightarrow> js_value" where
  "getOrgWideApexCoverage w =
     (case queryMetadata ''SELECT PercentCovered FROM ApexOrgWideCoverage'' (orgWideCoverageQuery w) of
        Inl error \<Rightarrow> JNull
      | Inr results \<Rightarrow>
          js_divide (jsRuntime w)
            (foldl (\<lambda>total result. js_plus (jsRuntime w) total (get_prop result ''PercentCovered''))
               (JNum (Finite 0)) results)
            (js_count results))"

definition getFlowCoveragePercentage :: "env \<Rightarrow> js_value" where
  "getFlowCoveragePercentage w =
     (case flowCoverageFirst w of
        Inl error \<Rightarrow> JNum (Finite 0)
      | Inr NoResult \<Rightarrow> JNum (Finite 0)
      | Inr (Records records) \<Rightarrow>
          (case records of
             [] \<Rightarrow> JNum (Finite 0)
           | firstRecord # _ \<Rightarrow>
               (let totalElements =
                      js_plus (jsRuntime w) (get_prop firstRecord ''NumElementsCovered'')
                        (get_prop firstRecord ''NumElementsNotCovered'')
                in if js_gt_zero (jsRuntime w) totalElements
                   then js_times (jsRuntime w)
                          (js_divide (jsRuntime w) (get_prop firstRecord ''NumElementsCovered'') totalElements)
                          (JNum (Finite 100))
                   else JNum (Finite 0))))"

definition flowCoverageOf :: "js_runtime \<Rightarrow> js_object list \<Rightarrow> js_object \<Rightarrow> Coverage" where
  "flowCoverageOf r coverageRecords flowDef =
     (let matchingCoverage =
            find (\<lambda>coverage. strict_eq (get_prop coverage ''FlowVersionId'')
                                (get_prop flowDef ''ActiveVersionId'')) coverageRecords;
          coveragePercentage =
            (case matchingCoverage of
               None \<Rightarrow> JNum (Finite 0)
             | Some m \<Rightarrow>
                 js_times r
                   (js_divide r (get_prop m ''NumElementsCovered'')
                      (js_plus r (get_prop m ''NumElementsCovered'') (get_prop m ''NumElementsNotCovered'')))
                   (JNum (Finite 100)))
      in \<lparr>covName = get_prop flowDef ''Label'', CoveragePercentage = coveragePercentage\<rparr>)"

text \<open>
  A response of another shape than the ones of \<open>sfdx_response\<close> makes a property read
  throw inside the \<^verbatim>\<open>try\<close> block, and comes to the same \<^verbatim>\<open>[]\<close> as an error.
\<close>

definition getFlowCoverageDetails :: "env \<Rightarrow> Coverage list" where
  "getFlowCoverageDetails w =
     (case flowCoverageSecond w of
        Inl error \<Rightarrow> []
      | Inr coverageResult \<Rightarrow>
          (case flowDefinitionViews w of
             Inl error \<Rightarrow> []
           | Inr flowDefinitionsResult \<Rightarrow>
               (case coverageResult of
                  NoResult \<Rightarrow> []
                | Records coverageRecords \<Rightarrow>
                    (case flowDefinitionsResult of
                       NoResult \<Rightarrow> []
                     | Records flowDefinitions \<Rightarrow>
                         if length flowDefinitions > 0
                         then map (flowCoverageOf (jsRuntime w) coverageRecords) flowDefinitions
                         else []))))"

definition getApexClassCoverageDetails :: "env \<Rightarrow> Coverage list" where
  "getApexClassCoverageDetails w =
     (case queryMetadata
             ''SELECT ApexClassOrTrigger.Name, NumLinesCovered, NumLinesUncovered FROM ApexCodeCoverageAggregate''
             (apexClassCoverageQuery w) of
        Inl error \<Rightarrow> []
      | Inr results \<Rightarrow>
          map (\<lambda>result.
                 \<lparr>covName = js_or (get_prop result ''ApexClassOrTrigger.Name'') (JStr ''N/A''),
                  CoveragePercentage =
                    calculateCoveragePercentage (jsRuntime w) (get_prop result ''NumLinesCovered'')
                      (get_prop result ''NumLinesUncovered'')\<rparr>)
            results)"

definition testsFragment :: "env \<Rightarrow> string \<Rightarrow> TestSummary" where
  "testsFragment w jobId =
     (let testResult = getTestRunDetails w jobId;
          orgWideApexCoverage = getOrgWideApexCoverage w;
          orgWideFlowCoverage = getFlowCoveragePercentage w;
          flowCoverageDetails = getFlowCoverageDetails w;
          zero = JNum (Finite 0)
      in \<lparr>ApexUnitTests = (case testResult of None \<Rightarrow> zero | Some t \<Rightarrow> nullish (methodsCompleted t) zero),
          TestDuration = (case testResult of None \<Rightarrow> zero | Some t \<Rightarrow> nullish (runtime t) zero),
          TestMethodsCompleted = (case testResult of None \<Rightarrow> zero | Some t \<Rightarrow> nullish (methodsCompleted t) zero),
          TestMethodsFailed = (case testResult of None \<Rightarrow> zero | Some t \<Rightarrow> nullish (methodsFailed t) zero),
          TestOutcome = (case testResult of None \<Rightarrow> JStr ''N/A'' | Some t \<Rightarrow> JStr (outcome t)),
          ApexCoverageDetails =
            \<lparr>covTotal = nullish orgWideApexCoverage zero, covDetails = getApexClassCoverageDetails w\<rparr>,
          FlowCoverageDetails =
            \<lparr>covTotal = nullish orgWideFlowCoverage zero, covDetails = flowCoverageDetails\<rparr>\<rparr>)"

text \<open>
  The phase: only the submission of the test run can throw into the phase's
  \<^verbatim>\<open>catch\<close>. \<open>None\<close> when the poll has not ended within the fuel.
\<close>

definition testsPhase :: "nat \<Rightarrow> env \<Rightarrow> flags \<Rightarrow> run_state \<Rightarrow> run_state option" where
  "testsPhase fuel w fl st =
     (case st of (baseSummary, errs) \<Rightarrow>
        if tests fl then
          (case testRunSubmit w of
             Some error \<Rightarrow> Some (baseSummary, errs @ [phaseError ''runApexTestsError'' error])
           | None \<Rightarrow>
               (case testRunId w of
                  None \<Rightarrow> Some st
                | Some jobId \<Rightarrow>
                    if jobId = [] then Some st
                    else
                      (case pollTestRunResult fuel w jobId of
                         None \<Rightarrow> None
                       | Some polled \<Rightarrow>
                           Some (baseSummary\<lparr>Tests := Some (testsFragment w jobId)\<rparr>, errs))))
        else Some st)"

subsection \<open>Component inventory\<close>

text \<open>
  \<^verbatim>\<open>queryDataPoints\<close>: one query per selected data point, in order; the query and
  the output file use the trimmed name, the result is stored under the name as given.
\<close>

fun queryDataPointsFrom ::
  "env \<Rightarrow> nat \<Rightarrow> string list \<Rightarrow> (string \<rightharpoonup> js_object list) \<Rightarrow> (string \<rightharpoonup> js_object list) result" where
  "queryDataPointsFrom w i [] queryResults = Inr queryResults"
| "queryDataPointsFrom w i (dataPoint # rest) queryResults =
     (case queryMetadata (buildQuery (trim dataPoint)) (dataPointQuery w i (trim dataPoint)) of
        Inl thrown \<Rightarrow> Inl thrown
      | Inr rows \<Rightarrow> queryDataPointsFrom w (Suc i) rest (queryResults(dataPoint \<mapsto> rows)))"

definition queryDataPoints :: "env \<Rightarrow> string list \<Rightarrow> (string \<rightharpoonup> js_object list) result" where
  "queryDataPoints w selectedDataPoints = queryDataPointsFrom w 0 selectedDataPoints Map.empty"

text \<open>
  \<^verbatim>\<open>errors.some(error => error && error.dataPoint === dataPoint)\<close>; an element of
  \<^verbatim>\<open>errors\<close> is \<^verbatim>\<open>null\<close> (\<open>None\<close>) or an object. Then one step of the
  loop of \<^verbatim>\<open>calculateComponentSummary\<close>.
\<close>

definition errorFor :: "js_object option list \<Rightarrow> string \<Rightarrow> bool" where
  "errorFor errs dataPoint =
     list_ex (\<lambda>error. case error of None \<Rightarrow> False
                       | Some e \<Rightarrow> get_prop e ''dataPoint'' = JStr dataPoint) errs"

definition componentStep ::
  "(string \<rightharpoonup> js_object list) \<Rightarrow> js_object option list \<Rightarrow>
   (string \<rightharpoonup> ComponentSummary) \<Rightarrow> string \<Rightarrow> (string \<rightharpoonup> ComponentSummary)" where
  "componentStep queryResults errs componentSummary dataPoint =
     (if errorFor errs dataPoint
      then componentSummary
      else
        (case queryResults dataPoint of
           None \<Rightarrow> componentSummary
         | Some results \<Rightarrow>
             (case results of
                [] \<Rightarrow> componentSummary
              | lastRecord # _ \<Rightarrow>
                  componentSummary(dataPoint \<mapsto>
                    \<lparr>Total = length results,
                     LastModifiedDate = get_prop lastRecord ''LastModifiedDate''\<rparr>))))"

definition calculateComponentSummary ::
  "string list \<Rightarrow> (string \<rightharpoonup> js_object list) \<Rightarrow> js_object option list \<Rightarrow>
   (string \<rightharpoonup> ComponentSummary)" where
  "calculateComponentSummary selectedDataPoints queryResults errs =
     foldl (componentStep queryResults errs) Map.empty selectedDataPoints"

text \<open>
  \<^verbatim>\<open>selectedDataPoints\<close>: \<^verbatim>\<open>undefined\<close> for the empty string, the pieces of a
  given list, the default list otherwise.
\<close>

definition selectDataPoints :: "env \<Rightarrow> flags \<Rightarrow> string list option" where
  "selectDataPoints w fl =
     (case metadata fl of
        None \<Rightarrow> Some (dataPoints w)
      | Some given \<Rightarrow> if given = [] then None else Some (split_on CHR '','' given))"

definition metadataPhase :: "env \<Rightarrow> flags \<Rightarrow> run_state \<Rightarrow> run_state" where
  "metadataPhase w fl st =
     (case st of (baseSummary, errs) \<Rightarrow>
        (case selectDataPoints w fl of
           None \<Rightarrow> st
         | Some selectedDataPoints \<Rightarrow>
             if selectedDataPoints = [] then st
             else
               (case queryDataPoints w selectedDataPoints of
                  Inl error \<Rightarrow> (baseSummary, errs @ [phaseError ''componentSummaryError'' error])
                | Inr queryResults \<Rightarrow>
                    (baseSummary\<lparr>Metadata :=
                       Some (calculateComponentSummary selectedDataPoints queryResults (map Some errs))\<rparr>,
                     errs))))"

section \<open>The run\<close>

definition given_directory :: "string option \<Rightarrow> bool" where
  "given_directory d = (case d of None \<Rightarrow> False | Some path \<Rightarrow> path \<noteq> [])"

text \<open>
  The outcome of a run that returns: the report, the error list as it stood at the end
  (a local of \<^verbatim>\<open>summarizeOrg\<close>, kept here to state properties of it), whether the
  summary directory was emptied, and the file written, if any.
\<close>

record run_result =
  summary :: OrgSummary
  errors :: "js_object list"
  cleaned :: bool
  persisted :: "(string \<times> OrgSummary) option"

text \<open>
  \<^verbatim>\<open>finish\<close>: the clean-up unless the data is kept, then the write when an output
  directory was given. Either can throw.
\<close>

definition finish ::
  "env \<Rightarrow> string \<Rightarrow> OrgSummary \<Rightarrow> bool \<Rightarrow> string option \<Rightarrow> (bool \<times> (string \<times> OrgSummary) option) result" where
  "finish w orgSummaryDirectory summarizedOrg keepData outputDirectory =
     (case (if keepData then None else cleanUpDirectory w) of
        Some error \<Rightarrow> Inl error
      | None \<Rightarrow>
          if given_directory outputDirectory then
            (case writeSummary w of
               Some error \<Rightarrow> Inl error
             | None \<Rightarrow> Inr (\<not> keepData, Some (orgSummaryDirectory @ ''/orgsummary.json'', summarizedOrg)))
          else Inr (\<not> keepData, None))"

definition summaryDirectory :: "env \<Rightarrow> flags \<Rightarrow> OrgInfo \<Rightarrow> OrgSummary \<Rightarrow> string" where
  "summaryDirectory w fl found baseSummary =
     (case outputdirectory fl of
        None \<Rightarrow> dirname w
      | Some path \<Rightarrow> if path = [] then dirname w else path)
       @ ''/'' @ orgId found @ ''/'' @ Timestamp baseSummary"

text \<open>The five phases in the order of \<^verbatim>\<open>summarizeOrg\<close>, threading the report and the error list.\<close>

definition runPhases :: "nat \<Rightarrow> env \<Rightarrow> flags \<Rightarrow> run_state \<Rightarrow> run_state option" where
  "runPhases fuel w fl st =
     (case testsPhase fuel w fl (codePhase w fl (limitsPhase w fl (healthPhase w fl st))) of
        None \<Rightarrow> None
      | Some tested \<Rightarrow> Some (metadataPhase w fl tested))"

text \<open>
  \<^verbatim>\<open>baseSummary.ResultState = errors.length > 0 ? 'Failure' : 'Completed'\<close>, the
  assignment that follows the last phase.
\<close>

definition assignResultState :: "run_state \<Rightarrow> OrgSummary" where
  "assignResultState st =
     (case st of (baseSummary, errs) \<Rightarrow>
        baseSummary\<lparr>ResultState := (if length errs > 0 then ''Failure'' else ''Completed'')\<rparr>)"

text \<open>
  The model follows \<^verbatim>\<open>src/src/index.ts\<close>. The second copy of
  \<^verbatim>\<open>summarizeOrg\<close> in the repository differs in the fields of the base summary
  (\<^verbatim>\<open>DateOfSummary\<close>, \<^verbatim>\<open>OutputPath\<close>), in the names and types of some fields
  of the test fragment, and in reading an empty \<^verbatim>\<open>metadata\<close> flag as the default
  list; the base summary starts as \<^verbatim>\<open>'Pending'\<close> and the final state is assigned
  from the error list in both.
\<close>

text \<open>
  \<^verbatim>\<open>summarizeOrg(flags, orgSummary?)\<close>. \<open>None\<close>: the poll of the test phase has not
  ended within the fuel. \<open>Some (Inl e)\<close>: the run threw \<open>e\<close> (creating the directory, or
  in \<^verbatim>\<open>finish\<close>). \<open>Some (Inr r)\<close>: the run returned.
\<close>

definition summarizeOrg :: "nat \<Rightarrow> env \<Rightarrow> flags \<Rightarrow> OrgSummary option \<Rightarrow> run_result result option" where
  "summarizeOrg fuel w fl orgSummary =
     (let found = getOrgInfo w;
          baseSummary = initialSummary w orgSummary;
          orgSummaryDirectory = summaryDirectory w fl found baseSummary
      in case (if existsDir w then None else mkdirDir w) of
           Some error \<Rightarrow> Some (Inl error)
         | None \<Rightarrow>
             (case runPhases fuel w fl (baseSummary, []) of
                None \<Rightarrow> None
              | Some (collected, errs) \<Rightarrow>
                  (let final = assignResultState (collected, errs)
                   in case finish w orgSummaryDirectory final (keepdata fl) (outputdirectory fl) of
                        Inl error \<Rightarrow> Some (Inl error)
                      | Inr (emptied, written) \<Rightarrow>
                          Some (Inr \<lparr>summary = final, errors = errs, cleaned = emptied,
                                     persisted = written\<rparr>))))"

text \<open>The tenant identity a report carries: id, username, instance address.\<close>

definition tenant :: "OrgSummary \<Rightarrow> string \<times> string \<times> string" where
  "tenant s = (OrgId s, Username s, OrgInstanceURL s)"

section \<open>The limits fragment, as specified\<close>

text \<open>
  The rows the specification has the limits phase retain, to compare with the loop of
  \<^verbatim>\<open>checkLimits\<close>: the entries of the response that have both \<^verbatim>\<open>Max\<close>
  and \<^verbatim>\<open>Remaining\<close>, in the order of the response, each once, with its name and
  the two values.
\<close>

definition specifiedRows ::
  "(string \<times> js_object option) list \<Rightarrow> (string \<times> js_value \<times> js_value) list" where
  "specifiedRows limitsData =
     [(key, get_prop props ''Max'', get_prop props ''Remaining'').
        (key, Some props) \<leftarrow> limitsData,
        get_prop props ''Max'' \<noteq> JUndefined \<and> get_prop props ''Remaining'' \<noteq> JUndefined]"

section \<open>Sample inputs\<close>

text \<open>
  A world in which the tenant resolves, every command succeeds and returns no rows, and
  no source file exists. The sample runs below change one outcome of it at a time. Its
  runtime conversions are stand-ins: no sample run converts between numbers and strings.
\<close>

definition sampleInfo :: OrgInfo where
  "sampleInfo =
     \<lparr>username = ''admin@example.com'', accessToken = ''token'',
      instanceUrl = ''https://example.my.salesforce.com'', orgId = ''00D000000000001''\<rparr>"

definition quietEnv :: env where
  "quietEnv =
     \<lparr>jsRuntime = \<lparr>NumberToString = (\<lambda>n. ''0''), StringToNumber = (\<lambda>s. NaN)\<rparr>,
      orgDisplay = Inr sampleInfo,
      dateNow = ''1700000000000'',
      dirname = ''/app'',
      dataPoints = [],
      existsDir = True,
      mkdirDir = None,
      hcsQuery = Inr [],
      hcrQuery = Inr [],
      limitsGet = Inr [],
      projectSetup = None,
      scannerResults = Inr [],
      classesFiles = Inr [],
      triggersFiles = Inr [],
      auraFiles = Inr [],
      lwcFiles = Inr [],
      staticresourcesFiles = Inr [],
      chdirBack = None,
      testRunSubmit = None,
      testRunId = None,
      asyncApexJobQuery = (\<lambda>tick. Inr []),
      testRunResultQuery = Inr [],
      orgWideCoverageQuery = Inr [],
      flowCoverageFirst = Inr NoResult,
      flowCoverageSecond = Inr NoResult,
      flowDefinitionViews = Inr NoResult,
      apexClassCoverageQuery = Inr [],
      dataPointQuery = (\<lambda>i dataPoint. Inr []),
      cleanUpDirectory = None,
      writeSummary = None\<rparr>"

text \<open>No phase selected, no inventory (\<^verbatim>\<open>metadata: ""\<close>), the report written under \<^verbatim>\<open>out\<close>.\<close>

definition noPhases :: flags where
  "noPhases =
     \<lparr>outputdirectory = Some ''out'', metadata = Some [], keepdata = False, healthcheck = False,
      limits = False, codeanalysis = False, tests = False, targetusername = None\<rparr>"

text \<open>A command that exits with a non-zero status: \<^verbatim>\<open>execSync\<close> throws, with the child's \<^verbatim>\<open>stderr\<close>.\<close>

definition commandFailed :: js_error where
  "commandFailed = \<lparr>message = ''Command failed: sfdx'', stderr = Some ''ERROR running command''\<rparr>"

text \<open>A failed HTTP request, and an unreadable or unparsable output file: errors without \<^verbatim>\<open>stderr\<close>.\<close>

definition requestFailed :: js_error where
  "requestFailed = \<lparr>message = ''Request failed with status code 401'', stderr = None\<rparr>"

definition parseFailed :: js_error where
  "parseFailed = \<lparr>message = ''Invalid Record Length'', stderr = None\<rparr>"

section \<open>Properties\<close>

lemmas run_defs = summarizeOrg_def runPhases_def healthPhase_def limitsPhase_def codePhase_def
  testsPhase_def metadataPhase_def assignResultState_def finish_def summaryDirectory_def
  given_directory_def initialSummary_def buildBaseSummary_def getOrgInfo_def selectDataPoints_def
  Let_def

lemmas sample_defs = quietEnv_def noPhases_def sampleInfo_def

subsection \<open>Rounding\<close>

text \<open>The exponent of a positive rational brackets it between two powers of two.\<close>

lemma bitlen_pos: "0 < n \<Longrightarrow> 1 \<le> bitlen n"
  by (auto simp: bitlen_alt_def)

lemma exponent_of_ge1:
  fixes x :: rat
  assumes "1 \<le> x"
  shows "2 powi exponent_of x \<le> x \<and> x < 2 powi (exponent_of x + 1)"
proof -
  let ?n = "\<lfloor>x\<rfloor>"
  from assms have n: "0 < ?n" by simp
  from bitlen_pos [OF n] have b: "1 \<le> bitlen ?n" .
  from bitlen_bounds [OF n] have lo: "2 ^ nat (bitlen ?n - 1) \<le> ?n" and hi: "?n < 2 ^ nat (bitlen ?n)"
    by simp_all
  have e: "exponent_of x = bitlen ?n - 1" using assms by (simp add: exponent_of_def)
  have "(2::rat) powi (bitlen ?n - 1) = of_int (2 ^ nat (bitlen ?n - 1))"
    using b by (simp add: power_int_def)
  also have "\<dots> \<le> of_int ?n" using lo by (simp only: of_int_le_iff)
  also have "\<dots> \<le> x" by simp
  finally have 1: "2 powi exponent_of x \<le> x" by (simp add: e)
  from hi have "?n + 1 \<le> 2 ^ nat (bitlen ?n)" by simp
  then have "(of_int (?n + 1) :: rat) \<le> of_int (2 ^ nat (bitlen ?n))" by (simp only: of_int_le_iff)
  moreover have "x < of_int (?n + 1)" by simp linarith
  moreover have "(2::rat) powi (bitlen ?n - 1 + 1) = of_int (2 ^ nat (bitlen ?n))"
    using b by (simp add: power_int_def)
  ultimately have 2: "x < 2 powi (exponent_of x + 1)" by (simp add: e)
  from 1 2 show ?thesis ..
qed

lemma exponent_of_lt1:
  fixes x :: rat
  assumes "0 < x" "x < 1"
  shows "2 powi exponent_of x \<le> x \<and> x < 2 powi (exponent_of x + 1)"
proof -
  let ?y = "1 / x"
  let ?c = "\<lceil>?y\<rceil>"
  let ?m = "?c - 1"
  let ?k = "bitlen ?m"
  from assms have y: "1 < ?y" by simp
  then have "1 < ?c" by (simp add: less_ceiling_iff)
  then have m: "0 < ?m" by simp
  from bitlen_pos [OF m] have k: "1 \<le> ?k" .
  from bitlen_bounds [OF m] have lo: "2 ^ nat (?k - 1) \<le> ?m" and hi: "?m < 2 ^ nat ?k"
    by simp_all
  have e: "exponent_of x = - ?k" using assms by (simp add: exponent_of_def)
  have "?y \<le> of_int ?c" by (rule le_of_int_ceiling)
  also have "\<dots> \<le> of_int (2 ^ nat ?k)"
  proof -
    from hi have "?c \<le> 2 ^ nat ?k" by simp
    then show ?thesis by (simp only: of_int_le_iff)
  qed
  finally have "?y \<le> 2 ^ nat ?k" by simp
  with assms(1) have "1 / 2 ^ nat ?k \<le> x"
    by (simp add: field_simps)
  moreover have "(2::rat) powi (- ?k) = 1 / 2 ^ nat ?k"
    using k by (simp add: power_int_def inverse_eq_divide power_one_over)
  ultimately have 1: "2 powi exponent_of x \<le> x" by (simp add: e)
  have "(of_int (2 ^ nat (?k - 1)) :: rat) \<le> of_int ?m" using lo by (simp only: of_int_le_iff)
  also have "\<dots> < ?y" using ceiling_correct [of ?y] by simp
  finally have "2 ^ nat (?k - 1) < ?y" by simp
  with assms(1) have "x < 1 / 2 ^ nat (?k - 1)"
    by (simp add: field_simps)
  moreover have "(2::rat) powi (- ?k + 1) = 1 / 2 ^ nat (?k - 1)"
  proof (cases "?k = 1")
    case True
    then show ?thesis by simp
  next
    case False
    with k have "- ?k + 1 < 0" by simp
    then show ?thesis by (simp add: power_int_def inverse_eq_divide power_one_over)
  qed
  ultimately have 2: "x < 2 powi (exponent_of x + 1)" by (simp add: e)
  from 1 2 show ?thesis ..
qed

lemma exponent_of_bounds:
  fixes x :: rat
  assumes "0 < x"
  shows "2 powi exponent_of x \<le> x" and "x < 2 powi (exponent_of x + 1)"
  using assms exponent_of_ge1 [of x] exponent_of_lt1 [of x] by (cases "1 \<le> x"; simp)+


lemma exponent_of_less:
  fixes x :: rat
  assumes "0 < x" "x < 2 powi k"
  shows "exponent_of x < k"
proof (rule ccontr)
  assume "\<not> exponent_of x < k"
  then have "k \<le> exponent_of x" by simp
  then have "(2::rat) powi k \<le> 2 powi exponent_of x" by (intro power_int_increasing) simp_all
  also have "\<dots> \<le> x" by (rule exponent_of_bounds(1) [OF assms(1)])
  finally show False using assms(2) by simp
qed

lemma exponent_of_ge:
  fixes x :: rat
  assumes "0 < x" "2 powi k \<le> x"
  shows "k \<le> exponent_of x"
proof (rule ccontr)
  assume "\<not> k \<le> exponent_of x"
  then have "exponent_of x + 1 \<le> k" by simp
  then have "(2::rat) powi (exponent_of x + 1) \<le> 2 powi k" by (intro power_int_increasing) simp_all
  with exponent_of_bounds(2) [OF assms(1)] assms(2) show False by simp
qed

lemma exponent_of_eq:
  fixes x :: rat
  assumes "2 powi k \<le> x" "x < 2 powi (k + 1)"
  shows "exponent_of x = k"
proof -
  have "(0::rat) < 2 powi k" by simp
  with assms(1) have pos: "0 < x" by linarith
  from exponent_of_ge [OF pos assms(1)] exponent_of_less [OF pos assms(2)] show ?thesis by simp
qed

text \<open>Rounding to the nearest integer, ties to even.\<close>

lemma floor_numeral_quotient: "\<lfloor>(numeral a :: rat) / numeral b\<rfloor> = numeral a div numeral b"
  using floor_divide_of_int_eq [of "numeral a" "numeral b", where ?'a = rat] by simp

lemma round_even_of_int: "round_even (of_int n) = n"
  by (simp add: round_even_def)

lemma round_even_le:
  assumes "y \<le> of_int k"
  shows "round_even y \<le> k"
proof (cases "\<lfloor>y\<rfloor> = k")
  case True
  then have "of_int k \<le> y" using of_int_floor_le [of y] by simp
  with assms have "y = of_int k" by simp
  then show ?thesis by (simp add: round_even_of_int)
next
  case False
  from assms have "\<lfloor>y\<rfloor> \<le> k" by (simp add: floor_le_iff)
  with False have "\<lfloor>y\<rfloor> + 1 \<le> k" by simp
  then show ?thesis by (simp add: round_even_def Let_def)
qed

lemma round_even_ge:
  assumes "of_int k \<le> y"
  shows "k \<le> round_even y"
proof -
  from assms have "k \<le> \<lfloor>y\<rfloor>" by (simp add: le_floor_iff)
  then show ?thesis by (simp add: round_even_def Let_def)
qed

lemma round_even_error: "\<bar>of_int (round_even y) - y\<bar> \<le> 1 / 2"
proof -
  have "of_int \<lfloor>y\<rfloor> \<le> y" "y < of_int \<lfloor>y\<rfloor> + 1" by linarith+
  then show ?thesis by (simp add: round_even_def Let_def)
qed

text \<open>
  A result between 0 and a natural number below \<open>2 ^ 53\<close> is rounded within these
  bounds; an integer below \<open>2 ^ 53\<close> in magnitude is a binary64 value; and in the
  normal range the rounding error is at most one part in \<open>2 ^ 53\<close>.
\<close>

lemma binary64_bounded:
  assumes "0 \<le> x" "x \<le> of_nat N" "N < 2 ^ 53"
  shows "\<exists>y. binary64 x = Finite y \<and> 0 \<le> y \<and> y \<le> of_nat N"
proof (cases "x = 0")
  case True
  then show ?thesis by (simp add: binary64_def)
next
  case False
  with assms(1) have pos: "0 < x" by simp
  define e where "e = max (exponent_of \<bar>x\<bar> - 52) (- 1074)"
  define m where "m = round_even (x / 2 powi e)"
  from assms(3) have "(of_nat N :: rat) < of_nat (2 ^ 53)" by (simp only: of_nat_less_iff)
  with assms(2) have "x < 2 powi 53" by simp
  from exponent_of_less [OF pos this] pos have e: "e \<le> 0" by (simp add: e_def)
  then have scale: "(2::rat) powi e = 1 / 2 ^ nat (- e)"
    by (cases "e = 0") (simp_all add: power_int_def inverse_eq_divide power_one_over)
  have "x / 2 powi e = x * 2 ^ nat (- e)" by (simp add: scale)
  also have "\<dots> \<le> of_nat N * 2 ^ nat (- e)" using assms(2) by simp
  also have "\<dots> = of_int (int N * 2 ^ nat (- e))" by simp
  finally have "m \<le> int N * 2 ^ nat (- e)" unfolding m_def by (rule round_even_le)
  then have "(of_int m :: rat) \<le> of_int (int N * 2 ^ nat (- e))" by (simp only: of_int_le_iff)
  then have "(of_int m :: rat) * 2 powi e \<le> (of_nat N * 2 ^ nat (- e)) * 2 powi e"
    by (intro mult_right_mono) simp_all
  then have hi: "(of_int m :: rat) * 2 powi e \<le> of_nat N" by (simp add: scale)
  have "(of_int 0 :: rat) \<le> x / 2 powi e" using assms(1) by simp
  then have "0 \<le> m" unfolding m_def by (rule round_even_ge)
  then have lo: "(0::rat) \<le> of_int m * 2 powi e" by simp
  have "(of_nat N :: rat) < of_nat (2 ^ 53)" using assms(3) by (simp only: of_nat_less_iff)
  also have "\<dots> \<le> 2 powi 1024" by simp
  finally have "\<not> (2::rat) powi 1024 \<le> \<bar>of_int m * 2 powi e\<bar>" using hi lo by simp
  then have "binary64 x = Finite (of_int m * 2 powi e)"
    using False by (simp add: binary64_def Let_def e_def m_def)
  with hi lo show ?thesis by simp
qed

lemma binary64_of_int:
  assumes "\<bar>n\<bar> < 2 ^ 53"
  shows "binary64 (of_int n) = Finite (of_int n)"
proof (cases "n = 0")
  case True
  then show ?thesis by (simp add: binary64_def)
next
  case False
  let ?x = "of_int n :: rat"
  define e where "e = max (exponent_of \<bar>?x\<bar> - 52) (- 1074)"
  from False have pos: "0 < \<bar>?x\<bar>" by simp
  from assms have "(of_int \<bar>n\<bar> :: rat) < of_int (2 ^ 53)" by (simp only: of_int_less_iff)
  then have small: "\<bar>?x\<bar> < 2 powi 53" by simp
  from exponent_of_less [OF pos this] have e: "e \<le> 0" by (simp add: e_def)
  then have scale: "(2::rat) powi e = 1 / 2 ^ nat (- e)"
    by (cases "e = 0") (simp_all add: power_int_def inverse_eq_divide power_one_over)
  have "?x / 2 powi e = of_int (n * 2 ^ nat (- e))" by (simp add: scale)
  then have "round_even (?x / 2 powi e) = n * 2 ^ nat (- e)" by (simp only: round_even_of_int)
  then have y: "of_int (round_even (?x / 2 powi e)) * 2 powi e = ?x" by (simp add: scale)
  have "\<bar>?x\<bar> < 2 powi 1024" using small by simp
  then have "\<not> 2 powi 1024 \<le> \<bar>?x\<bar>" by simp
  with False y show ?thesis
    by (simp add: binary64_def Let_def e_def [symmetric])
qed

lemma binary64_of_nat:
  assumes "n < 2 ^ 53"
  shows "binary64 (of_nat n) = Finite (of_nat n)"
proof -
  from assms have "\<bar>int n\<bar> < 2 ^ 53" by simp
  from binary64_of_int [OF this] show ?thesis by simp
qed

lemma binary64_error:
  assumes "2 powi (- 1022) \<le> x" "binary64 x = Finite y"
  shows "\<bar>y - x\<bar> \<le> x / 2 ^ 53"
proof -
  have "(0::rat) < 2 powi (- 1022)" by simp
  with assms(1) have pos: "0 < x" by linarith
  define s where "s = (2::rat) powi (exponent_of x - 52)"
  define m where "m = round_even (x / s)"
  have spos: "0 < s" by (simp add: s_def)
  from exponent_of_ge [OF pos assms(1)] have "max (exponent_of \<bar>x\<bar> - 52) (- 1074) = exponent_of x - 52"
    using pos by simp
  with assms(2) pos have y: "y = of_int m * s"
    by (simp add: binary64_def Let_def s_def m_def signed_infinity_def split: if_splits)
  have "\<bar>of_int m - x / s\<bar> \<le> 1 / 2" unfolding m_def by (rule round_even_error)
  then have "\<bar>of_int m - x / s\<bar> * s \<le> 1 / 2 * s" using spos by (intro mult_right_mono) simp_all
  moreover have "\<bar>of_int m - x / s\<bar> * s = \<bar>y - x\<bar>"
  proof -
    have "\<bar>of_int m - x / s\<bar> * s = \<bar>(of_int m - x / s) * s\<bar>" using spos by (simp add: abs_mult)
    also have "(of_int m - x / s) * s = y - x" using spos by (simp add: y field_simps)
    finally show ?thesis .
  qed
  moreover have "1 / 2 * s = 2 powi exponent_of x / 2 ^ 53"
  proof -
    have "s = 2 powi exponent_of x / 2 powi 52" unfolding s_def by (rule power_int_diff) simp
    then show ?thesis by simp
  qed
  ultimately have "\<bar>y - x\<bar> \<le> 2 powi exponent_of x / 2 ^ 53" by simp
  also have "\<dots> \<le> x / 2 ^ 53" using exponent_of_bounds(1) [OF pos] by (simp add: divide_right_mono)
  finally show ?thesis .
qed

text \<open>Rounding does not take a result below a binary64 value that the exact result reaches.\<close>

lemma binary64_ge_representable:
  assumes "0 < a" "binary64 a = Finite a" "a \<le> y" "binary64 y = Finite t"
  shows "a \<le> t"
proof -
  from assms(1,3) have y: "0 < y" by simp
  define ea where "ea = max (exponent_of a - 52) (- 1074)"
  define ey where "ey = max (exponent_of y - 52) (- 1074)"
  define ma where "ma = round_even (a / 2 powi ea)"
  define my where "my = round_even (y / 2 powi ey)"
  from assms(2) assms(1) have a: "a = of_int ma * 2 powi ea"
    by (simp add: binary64_def Let_def ea_def ma_def signed_infinity_def split: if_splits)
  from assms(4) y have t: "t = of_int my * 2 powi ey"
    by (simp add: binary64_def Let_def ey_def my_def signed_infinity_def split: if_splits)
  have "2 powi exponent_of a \<le> a" by (rule exponent_of_bounds(1) [OF assms(1)])
  with assms(3) have "2 powi exponent_of a \<le> y" by (rule order_trans [rotated])
  from exponent_of_ge [OF y this] have mono: "exponent_of a \<le> exponent_of y" .
  then have "ea \<le> ey" by (simp add: ea_def ey_def)
  then consider "ea = ey" | "ea < ey" by linarith
  then show ?thesis
  proof cases
    case 1
    have "a / 2 powi ey = of_int ma" by (simp add: a 1)
    moreover have "a / 2 powi ey \<le> y / 2 powi ey" using assms(3) by (simp add: divide_right_mono)
    ultimately have "of_int ma \<le> y / 2 powi ey" by simp
    then have "ma \<le> my" unfolding my_def by (rule round_even_ge)
    then have "(of_int ma :: rat) \<le> of_int my" by (simp only: of_int_le_iff)
    then have "of_int ma * 2 powi ey \<le> of_int my * (2::rat) powi ey"
      by (intro mult_right_mono) simp_all
    then show ?thesis by (simp add: a t 1)
  next
    case 2
    then have ey: "ey = exponent_of y - 52" and above: "exponent_of a + 1 \<le> exponent_of y"
      unfolding ea_def ey_def by linarith+
    have "(2::rat) powi exponent_of y / 2 powi ey = 2 powi 52"
      unfolding ey by (subst power_int_diff) simp_all
    moreover have "(2::rat) powi exponent_of y / 2 powi ey \<le> y / 2 powi ey"
      using exponent_of_bounds(1) [OF y] by (simp add: divide_right_mono)
    ultimately have "of_int (2 ^ 52) \<le> y / 2 powi ey" by simp
    then have "2 ^ 52 \<le> my" unfolding my_def by (rule round_even_ge)
    then have "(of_int (2 ^ 52) :: rat) \<le> of_int my" by (simp only: of_int_le_iff)
    then have scaled: "of_int (2 ^ 52) * 2 powi ey \<le> of_int my * (2::rat) powi ey"
      by (intro mult_right_mono) simp_all
    have power: "of_int (2 ^ 52) * (2::rat) powi ey = 2 powi exponent_of y"
    proof -
      have "(2::rat) powi exponent_of y = 2 powi (52 + ey)" by (simp add: ey)
      also have "\<dots> = 2 powi 52 * 2 powi ey" by (rule power_int_add) simp
      finally show ?thesis by simp
    qed
    from scaled have "2 powi exponent_of y \<le> t" unfolding power t .
    moreover have "(2::rat) powi (exponent_of a + 1) \<le> 2 powi exponent_of y"
      using above by (intro power_int_increasing) simp_all
    moreover have "a < 2 powi (exponent_of a + 1)" by (rule exponent_of_bounds(2) [OF assms(1)])
    ultimately show ?thesis by linarith
  qed
qed

subsection \<open>What a run that returns has done\<close>

lemma summarizeOrg_returns:
  assumes "summarizeOrg fuel w fl orgSummary = Some (Inr r)"
  shows "\<exists>collected. runPhases fuel w fl (initialSummary w orgSummary, []) = Some (collected, errors r)
     \<and> summary r = collected\<lparr>ResultState := (if errors r = [] then ''Completed'' else ''Failure'')\<rparr>
     \<and> (persisted r = None \<or> (\<exists>path. persisted r = Some (path, summary r)))
     \<and> (given_directory (outputdirectory fl) \<longrightarrow> persisted r \<noteq> None)"
  using assms unfolding summarizeOrg_def assignResultState_def Let_def finish_def
  by (auto split: option.splits sum.splits prod.splits if_splits)

lemma summarizeOrg_thrown:
  assumes "summarizeOrg fuel w fl given = Some (Inl thrown)"
  shows "(\<not> existsDir w \<and> mkdirDir w = Some thrown)
     \<or> (\<not> keepdata fl \<and> cleanUpDirectory w = Some thrown)
     \<or> (given_directory (outputdirectory fl) \<and> writeSummary w = Some thrown)"
  using assms unfolding summarizeOrg_def assignResultState_def Let_def finish_def
  by (auto split: option.splits sum.splits prod.splits if_splits)

lemma runPhases_without_tests:
  assumes "\<not> tests fl"
  shows "\<exists>collected errs. runPhases fuel w fl st = Some (collected, errs)"
  using assms by (simp add: runPhases_def testsPhase_def split: prod.splits)

lemma summarizeOrg_total_without_tests:
  assumes "\<not> tests fl" "existsDir w \<or> mkdirDir w = None" "keepdata fl \<or> cleanUpDirectory w = None"
    "writeSummary w = None"
  shows "\<exists>r. summarizeOrg fuel w fl given = Some (Inr r)"
proof -
  from runPhases_without_tests [OF assms(1)] obtain collected errs where
    "runPhases fuel w fl (initialSummary w given, []) = Some (collected, errs)" by blast
  with assms(2-4) show ?thesis
    unfolding summarizeOrg_def assignResultState_def Let_def finish_def
    by (auto split: option.splits sum.splits prod.splits if_splits)
qed

text \<open>No phase touches the tenant identity of the report.\<close>

lemma healthPhase_tenant: "tenant (fst (healthPhase w fl st)) = tenant (fst st)"
  by (cases st) (simp add: healthPhase_def tenant_def split: sum.splits)

lemma limitsPhase_tenant: "tenant (fst (limitsPhase w fl st)) = tenant (fst st)"
  by (cases st) (simp add: limitsPhase_def tenant_def)

lemma codePhase_tenant: "tenant (fst (codePhase w fl st)) = tenant (fst st)"
  by (cases st) (simp add: codePhase_def tenant_def Let_def split: sum.splits option.splits)

lemma testsPhase_tenant: "testsPhase fuel w fl st = Some st' \<Longrightarrow> tenant (fst st') = tenant (fst st)"
  by (cases st) (auto simp: testsPhase_def tenant_def split: option.splits if_splits)

lemma metadataPhase_tenant: "tenant (fst (metadataPhase w fl st)) = tenant (fst st)"
  by (cases st) (simp add: metadataPhase_def tenant_def split: sum.splits option.splits)

lemma runPhases_tenant:
  assumes "runPhases fuel w fl st = Some st'"
  shows "tenant (fst st') = tenant (fst st)"
proof -
  from assms obtain tested where
    t: "testsPhase fuel w fl (codePhase w fl (limitsPhase w fl (healthPhase w fl st))) = Some tested"
    and m: "st' = metadataPhase w fl tested"
    by (auto simp: runPhases_def split: option.splits)
  from testsPhase_tenant [OF t] m show ?thesis
    by (simp add: metadataPhase_tenant codePhase_tenant limitsPhase_tenant healthPhase_tenant)
qed

subsection \<open>Outcome state\<close>

text \<open>No phase touches the state of the report.\<close>

lemma healthPhase_state: "ResultState (fst (healthPhase w fl st)) = ResultState (fst st)"
  by (cases st) (simp add: healthPhase_def split: sum.splits)

lemma limitsPhase_state: "ResultState (fst (limitsPhase w fl st)) = ResultState (fst st)"
  by (cases st) (simp add: limitsPhase_def)

lemma codePhase_state: "ResultState (fst (codePhase w fl st)) = ResultState (fst st)"
  by (cases st) (simp add: codePhase_def Let_def split: sum.splits option.splits)

lemma testsPhase_state:
  "testsPhase fuel w fl st = Some st' \<Longrightarrow> ResultState (fst st') = ResultState (fst st)"
  by (cases st) (auto simp: testsPhase_def split: option.splits if_splits)

lemma metadataPhase_state: "ResultState (fst (metadataPhase w fl st)) = ResultState (fst st)"
  by (cases st) (simp add: metadataPhase_def split: sum.splits option.splits)

lemma runPhases_state:
  assumes "runPhases fuel w fl st = Some st'"
  shows "ResultState (fst st') = ResultState (fst st)"
proof -
  from assms obtain tested where
    t: "testsPhase fuel w fl (codePhase w fl (limitsPhase w fl (healthPhase w fl st))) = Some tested"
    and m: "st' = metadataPhase w fl tested"
    by (auto simp: runPhases_def split: option.splits)
  from testsPhase_state [OF t] m show ?thesis
    by (simp add: metadataPhase_state codePhase_state limitsPhase_state healthPhase_state)
qed

lemma assignResultState_state:
  "ResultState (assignResultState (collected, errs)) = (if errs = [] then ''Completed'' else ''Failure'')"
  by (simp add: assignResultState_def)

text \<open>
  Claim C1, as the code has it. Once the five phases have run from the initial report and
  the empty error list, the state assigned to the report is \<^verbatim>\<open>'Failure'\<close> exactly
  when the error list is not empty and \<^verbatim>\<open>'Completed'\<close> exactly when it is empty,
  and up to that assignment the report has the state it started with. A run that returns
  returns that report and that error list. Before the first phase the state is
  \<^verbatim>\<open>'Pending'\<close> when \<^verbatim>\<open>summarizeOrg\<close> builds the base summary itself; a
  summary passed in by the caller starts with the state it came with. None of the five
  phases changes the state.
\<close>

theorem result_state_after_phases:
  "(\<forall>collected errs. runPhases fuel w fl (initialSummary w orgSummary, []) = Some (collected, errs) \<longrightarrow>
        ResultState collected = ResultState (initialSummary w orgSummary)
      \<and> (ResultState (assignResultState (collected, errs)) = ''Failure'' \<longleftrightarrow> errs \<noteq> [])
      \<and> (ResultState (assignResultState (collected, errs)) = ''Completed'' \<longleftrightarrow> errs = []))
   \<and> (\<forall>r. summarizeOrg fuel w fl orgSummary = Some (Inr r) \<longrightarrow>
        (\<exists>collected. runPhases fuel w fl (initialSummary w orgSummary, []) = Some (collected, errors r)
            \<and> summary r = assignResultState (collected, errors r))
      \<and> (ResultState (summary r) = ''Failure'' \<longleftrightarrow> errors r \<noteq> [])
      \<and> (ResultState (summary r) = ''Completed'' \<longleftrightarrow> errors r = []))
   \<and> ResultState (initialSummary w None) = ''Pending''
   \<and> (\<forall>given. ResultState (initialSummary w (Some given)) = ResultState given)
   \<and> (\<forall>st. ResultState (fst (healthPhase w fl st)) = ResultState (fst st)
          \<and> ResultState (fst (limitsPhase w fl st)) = ResultState (fst st)
          \<and> ResultState (fst (codePhase w fl st)) = ResultState (fst st)
          \<and> (\<forall>st'. testsPhase fuel w fl st = Some st' \<longrightarrow> ResultState (fst st') = ResultState (fst st))
          \<and> ResultState (fst (metadataPhase w fl st)) = ResultState (fst st))"
proof -
  have phases: "ResultState collected = ResultState (initialSummary w orgSummary)
      \<and> (ResultState (assignResultState (collected, errs)) = ''Failure'' \<longleftrightarrow> errs \<noteq> [])
      \<and> (ResultState (assignResultState (collected, errs)) = ''Completed'' \<longleftrightarrow> errs = [])"
    if "runPhases fuel w fl (initialSummary w orgSummary, []) = Some (collected, errs)"
    for collected errs
    using runPhases_state [OF that] by (simp add: assignResultState_state)
  have returned: "(\<exists>collected. runPhases fuel w fl (initialSummary w orgSummary, []) = Some (collected, errors r)
            \<and> summary r = assignResultState (collected, errors r))
      \<and> (ResultState (summary r) = ''Failure'' \<longleftrightarrow> errors r \<noteq> [])
      \<and> (ResultState (summary r) = ''Completed'' \<longleftrightarrow> errors r = [])"
    if "summarizeOrg fuel w fl orgSummary = Some (Inr r)" for r
  proof -
    from summarizeOrg_returns [OF that] obtain collected where
      run: "runPhases fuel w fl (initialSummary w orgSummary, []) = Some (collected, errors r)" and
      final: "summary r = collected\<lparr>ResultState := (if errors r = [] then ''Completed'' else ''Failure'')\<rparr>"
      by blast
    from final have "summary r = assignResultState (collected, errors r)"
      by (simp add: assignResultState_def)
    with run show ?thesis by (auto simp: assignResultState_state)
  qed
  have built: "ResultState (initialSummary w None) = ''Pending''"
    by (simp add: initialSummary_def buildBaseSummary_def Let_def)
  have handed: "\<forall>given. ResultState (initialSummary w (Some given)) = ResultState given"
    by (simp add: initialSummary_def)
  have each: "\<forall>st. ResultState (fst (healthPhase w fl st)) = ResultState (fst st)
          \<and> ResultState (fst (limitsPhase w fl st)) = ResultState (fst st)
          \<and> ResultState (fst (codePhase w fl st)) = ResultState (fst st)
          \<and> (\<forall>st'. testsPhase fuel w fl st = Some st' \<longrightarrow> ResultState (fst st') = ResultState (fst st))
          \<and> ResultState (fst (metadataPhase w fl st)) = ResultState (fst st)"
    using testsPhase_state [of fuel w fl]
    by (simp add: healthPhase_state limitsPhase_state codePhase_state metadataPhase_state)
  from phases have phases': "\<forall>collected errs.
      runPhases fuel w fl (initialSummary w orgSummary, []) = Some (collected, errs) \<longrightarrow>
        ResultState collected = ResultState (initialSummary w orgSummary)
      \<and> (ResultState (assignResultState (collected, errs)) = ''Failure'' \<longleftrightarrow> errs \<noteq> [])
      \<and> (ResultState (assignResultState (collected, errs)) = ''Completed'' \<longleftrightarrow> errs = [])"
    by blast
  from returned have returned': "\<forall>r. summarizeOrg fuel w fl orgSummary = Some (Inr r) \<longrightarrow>
        (\<exists>collected. runPhases fuel w fl (initialSummary w orgSummary, []) = Some (collected, errors r)
            \<and> summary r = assignResultState (collected, errors r))
      \<and> (ResultState (summary r) = ''Failure'' \<longleftrightarrow> errors r \<noteq> [])
      \<and> (ResultState (summary r) = ''Completed'' \<longleftrightarrow> errors r = [])"
    by blast
  show ?thesis by (intro conjI phases' returned' built handed each)
qed

text \<open>
  A run in which the health score command fails: one entry in the error list, and the
  state goes from \<^verbatim>\<open>'Pending'\<close> to \<^verbatim>\<open>'Failure'\<close>.
\<close>

theorem result_state_witness:
  "runPhases 0 (quietEnv\<lparr>hcsQuery := Inl commandFailed\<rparr>) (noPhases\<lparr>healthcheck := True\<rparr>)
       (initialSummary (quietEnv\<lparr>hcsQuery := Inl commandFailed\<rparr>) None, [])
     = Some (\<lparr>Timestamp = ''1700000000000'', ResultState = ''Pending'', OrgId = ''00D000000000001'',
              Username = ''admin@example.com'', OrgInstanceURL = ''https://example.my.salesforce.com'',
              HealthCheck = None, Limits = None, Code = None, Tests = None, Metadata = None\<rparr>,
             [[(''getHealthCheckScoreError'', JStr ''Command failed: sfdx'')]])
   \<and> ResultState (assignResultState
        (\<lparr>Timestamp = ''1700000000000'', ResultState = ''Pending'', OrgId = ''00D000000000001'',
          Username = ''admin@example.com'', OrgInstanceURL = ''https://example.my.salesforce.com'',
          HealthCheck = None, Limits = None, Code = None, Tests = None, Metadata = None\<rparr>,
         [[(''getHealthCheckScoreError'', JStr ''Command failed: sfdx'')]])) = ''Failure''
   \<and> summarizeOrg 0 (quietEnv\<lparr>hcsQuery := Inl commandFailed\<rparr>) (noPhases\<lparr>healthcheck := True\<rparr>) None
     = Some (Inr
       \<lparr>summary =
          \<lparr>Timestamp = ''1700000000000'', ResultState = ''Failure'', OrgId = ''00D000000000001'',
           Username = ''admin@example.com'', OrgInstanceURL = ''https://example.my.salesforce.com'',
           HealthCheck = None, Limits = None, Code = None, Tests = None, Metadata = None\<rparr>,
        errors = [[(''getHealthCheckScoreError'', JStr ''Command failed: sfdx'')]], cleaned = True,
        persisted = Some (''out/00D000000000001/1700000000000/orgsummary.json'',
          \<lparr>Timestamp = ''1700000000000'', ResultState = ''Failure'', OrgId = ''00D000000000001'',
           Username = ''admin@example.com'', OrgInstanceURL = ''https://example.my.salesforce.com'',
           HealthCheck = None, Limits = None, Code = None, Tests = None, Metadata = None\<rparr>)\<rparr>)
   \<and> ResultState (initialSummary (quietEnv\<lparr>hcsQuery := Inl commandFailed\<rparr>) None) = ''Pending''"
proof -
  let ?w = "quietEnv\<lparr>hcsQuery := Inl commandFailed\<rparr>" and ?fl = "noPhases\<lparr>healthcheck := True\<rparr>"
  let ?collected =
    "\<lparr>Timestamp = ''1700000000000'', ResultState = ''Pending'', OrgId = ''00D000000000001'',
      Username = ''admin@example.com'', OrgInstanceURL = ''https://example.my.salesforce.com'',
      HealthCheck = None, Limits = None, Code = None, Tests = None, Metadata = None\<rparr>"
  let ?errs = "[[(''getHealthCheckScoreError'', JStr ''Command failed: sfdx'')]]"
  have phases: "runPhases 0 ?w ?fl (initialSummary ?w None, []) = Some (?collected, ?errs)"
    by (simp add: run_defs sample_defs getHealthCheckScore_def try_bind_def phaseError_def commandFailed_def)
  have run: "summarizeOrg 0 ?w ?fl None = Some (Inr
       \<lparr>summary =
          \<lparr>Timestamp = ''1700000000000'', ResultState = ''Failure'', OrgId = ''00D000000000001'',
           Username = ''admin@example.com'', OrgInstanceURL = ''https://example.my.salesforce.com'',
           HealthCheck = None, Limits = None, Code = None, Tests = None, Metadata = None\<rparr>,
        errors = ?errs, cleaned = True,
        persisted = Some (''out/00D000000000001/1700000000000/orgsummary.json'',
          \<lparr>Timestamp = ''1700000000000'', ResultState = ''Failure'', OrgId = ''00D000000000001'',
           Username = ''admin@example.com'', OrgInstanceURL = ''https://example.my.salesforce.com'',
           HealthCheck = None, Limits = None, Code = None, Tests = None, Metadata = None\<rparr>)\<rparr>)"
    by (simp add: run_defs sample_defs getHealthCheckScore_def try_bind_def phaseError_def commandFailed_def)
  note claim = result_state_after_phases [of 0 ?w ?fl None]
  from claim [THEN conjunct1, rule_format, OF phases, THEN conjunct2, THEN conjunct1]
  have assigned: "ResultState (assignResultState (?collected, ?errs)) = ''Failure''"
    by simp
  from claim [THEN conjunct2, THEN conjunct2, THEN conjunct1]
  have initial: "ResultState (initialSummary ?w None) = ''Pending''" .
  from phases assigned run initial show ?thesis by simp
qed

text \<open>
  Claim C1 as stated fails on its last part: a run that is handed the report of an earlier
  run starts in the state that report carries, here \<^verbatim>\<open>'Completed'\<close>, not in
  \<^verbatim>\<open>'Pending'\<close>.
\<close>

theorem pending_counterexample:
  "ResultState (initialSummary quietEnv (Some ((buildBaseSummary quietEnv None)\<lparr>ResultState := ''Completed''\<rparr>)))
     = ''Completed''
   \<and> ResultState (initialSummary quietEnv (Some ((buildBaseSummary quietEnv None)\<lparr>ResultState := ''Completed''\<rparr>)))
     \<noteq> ''Pending''"
  by (simp add: initialSummary_def)

subsection \<open>Failure isolation\<close>

text \<open>
  The phases differ in what reaches the \<^verbatim>\<open>catch\<close> of the phase. A failing health
  score command does: exactly one entry, tagged \<^verbatim>\<open>getHealthCheckScoreError\<close>.
  A failing limits request does not, and neither does a failing query of
  \<^verbatim>\<open>queryMetadata\<close>.
\<close>

text \<open>
  What each phase can add to the error list: nothing, or one tagged entry. The limits phase
  never adds one.
\<close>

lemma healthPhase_errors:
  "snd (healthPhase w fl st) = snd st
   \<or> (\<exists>e. getHealthCheckScore w = Inl e
          \<and> snd (healthPhase w fl st) = snd st @ [phaseError ''getHealthCheckScoreError'' e])"
  by (cases st) (simp add: healthPhase_def split: sum.splits)

lemma limitsPhase_errors: "snd (limitsPhase w fl st) = snd st"
  by (cases st) (simp add: limitsPhase_def)

lemma codePhase_errors:
  "snd (codePhase w fl st) = snd st
   \<or> (\<exists>e. snd (codePhase w fl st) = snd st @ [phaseError ''calculateLinesOfCodeError'' e])"
  by (cases st) (auto simp: codePhase_def Let_def split: sum.splits option.splits)

lemma testsPhase_errors:
  assumes "testsPhase fuel w fl st = Some st'"
  shows "snd st' = snd st
   \<or> (\<exists>e. testRunSubmit w = Some e \<and> snd st' = snd st @ [phaseError ''runApexTestsError'' e])"
  using assms by (cases st) (auto simp: testsPhase_def split: option.splits if_splits)

lemma metadataPhase_errors:
  "snd (metadataPhase w fl st) = snd st
   \<or> (\<exists>e. snd (metadataPhase w fl st) = snd st @ [phaseError ''componentSummaryError'' e])"
  by (cases st) (auto simp: metadataPhase_def split: sum.splits option.splits)

text \<open>
  \<^verbatim>\<open>queryMetadata\<close> answers a failed command with no rows, and throws only on an
  error without \<^verbatim>\<open>stderr\<close>.
\<close>

lemma queryMetadata_swallows:
  "stderr error = Some s \<Longrightarrow> queryMetadata query (Inl error) = Inr []"
  by (simp add: queryMetadata_def handleQueryError_def Let_def)

lemma queryMetadata_rethrows:
  "stderr error = None \<Longrightarrow> queryMetadata query (Inl error) = Inl stderr_TypeError"
  by (simp add: queryMetadata_def handleQueryError_def)

lemma limitsPhase_request_failed:
  "limitsGet w = Inl e \<Longrightarrow> limits fl \<Longrightarrow>
   limitsPhase w fl (s, errs) =
     (s\<lparr>Limits := Some \<lparr>Applicable = 0, Reached = 0, Unattained = 0, limDetails = []\<rparr>\<rparr>, errs)"
  by (simp add: limitsPhase_def checkLimits_def limitSummary_def)

lemma metadata_query_failure_swallowed:
  "case summarizeOrg 0 (quietEnv\<lparr>dataPointQuery := (\<lambda>i d. Inl commandFailed)\<rparr>)
          (noPhases\<lparr>metadata := Some ''ApexClass''\<rparr>) None of
     Some (Inr r) \<Rightarrow> errors r = [] \<and> ResultState (summary r) = ''Completed''
   | _ \<Rightarrow> False"
  by (simp add: run_defs sample_defs queryDataPoints_def queryMetadata_def handleQueryError_def
      commandFailed_def calculateComponentSummary_def componentStep_def errorFor_def)

text \<open>
  Claim C2, at the input where the code departs from it: the limits phase is selected and
  the HTTP request fails. \<^verbatim>\<open>checkLimits\<close> catches the error itself, so the run's
  error list stays empty, the report holds an all-zero \<^verbatim>\<open>Limits\<close> fragment, and the
  state is \<^verbatim>\<open>'Completed'\<close>.
\<close>

theorem limits_phase_swallows_failure:
  "summarizeOrg 0 (quietEnv\<lparr>limitsGet := Inl requestFailed\<rparr>) (noPhases\<lparr>limits := True\<rparr>) None =
     Some (Inr
       \<lparr>summary =
          \<lparr>Timestamp = ''1700000000000'', ResultState = ''Completed'', OrgId = ''00D000000000001'',
           Username = ''admin@example.com'', OrgInstanceURL = ''https://example.my.salesforce.com'',
           HealthCheck = None,
           Limits = Some \<lparr>Applicable = 0, Reached = 0, Unattained = 0, limDetails = []\<rparr>,
           Code = None, Tests = None, Metadata = None\<rparr>,
        errors = [], cleaned = True,
        persisted = Some (''out/00D000000000001/1700000000000/orgsummary.json'',
          \<lparr>Timestamp = ''1700000000000'', ResultState = ''Completed'', OrgId = ''00D000000000001'',
           Username = ''admin@example.com'', OrgInstanceURL = ''https://example.my.salesforce.com'',
           HealthCheck = None,
           Limits = Some \<lparr>Applicable = 0, Reached = 0, Unattained = 0, limDetails = []\<rparr>,
           Code = None, Tests = None, Metadata = None\<rparr>)\<rparr>)"
  by (simp add: run_defs sample_defs checkLimits_def limitSummary_def)

subsection \<open>Resource limits\<close>

lemma limitStep_append: "limitStep r acc entry = acc @ limitStep r [] entry"
  by (simp add: limitStep_def split: prod.splits option.splits)

lemma foldl_limitStep: "foldl (limitStep r) acc limitsData = acc @ concat (map (limitStep r []) limitsData)"
proof (induction limitsData arbitrary: acc)
  case Nil
  show ?case by simp
next
  case (Cons entry limitsData)
  have "foldl (limitStep r) acc (entry # limitsData) = foldl (limitStep r) (limitStep r acc entry) limitsData"
    by simp
  also have "\<dots> = limitStep r acc entry @ concat (map (limitStep r []) limitsData)"
    by (rule Cons.IH)
  also have "\<dots> = acc @ concat (map (limitStep r []) (entry # limitsData))"
    using limitStep_append [of r acc entry] by simp
  finally show ?case .
qed

lemma checkLimits_rows:
  "checkLimits r (Inr limitsData) = concat (map (limitStep r []) limitsData)"
  by (simp add: checkLimits_def foldl_limitStep)

text \<open>The loop retains the specified entries: the same rows, in the same order, each once.\<close>

lemma checkLimits_specifiedRows:
  "map (\<lambda>l. (limName l, limMax l, limRemaining l)) (checkLimits r (Inr limitsData))
     = specifiedRows limitsData"
proof (induction limitsData)
  case Nil
  show ?case by (simp add: checkLimits_rows specifiedRows_def)
next
  case (Cons entry limitsData)
  obtain key info where entry: "entry = (key, info)" by (cases entry)
  have "map (\<lambda>l. (limName l, limMax l, limRemaining l)) (limitStep r [] entry)
      = specifiedRows [entry]"
    by (simp add: entry limitStep_def specifiedRows_def split: option.splits)
  moreover have "specifiedRows (entry # limitsData) = specifiedRows [entry] @ specifiedRows limitsData"
    by (simp add: specifiedRows_def)
  ultimately show ?case
    using Cons.IH by (simp add: checkLimits_rows)
qed

text \<open>The difference of two integers is exact when it is below \<open>2 ^ 53\<close> in magnitude.\<close>

lemma js_minus_integers:
  assumes "\<bar>M - R\<bar> < 2 ^ 53"
  shows "js_minus r (JNum (Finite (of_int M))) (JNum (Finite (of_int R))) = JNum (Finite (of_int (M - R)))"
proof -
  have "binary64 (of_int M + - of_int R) = binary64 (of_int (M - R))" by simp
  also have "\<dots> = Finite (of_int (M - R))" using assms by (rule binary64_of_int)
  finally show ?thesis by (simp add: js_minus_def js_sub_def)
qed

lemma checkLimits_origin:
  assumes "l \<in> set (checkLimits r (Inr limitsData))"
  shows "\<exists>props. (limName l, Some props) \<in> set limitsData
      \<and> get_prop props ''Max'' = limMax l \<and> limMax l \<noteq> JUndefined
      \<and> get_prop props ''Remaining'' = limRemaining l \<and> limRemaining l \<noteq> JUndefined
      \<and> limUsage l = js_minus r (limMax l) (limRemaining l)"
proof -
  from assms obtain entry where "entry \<in> set limitsData" "l \<in> set (limitStep r [] entry)"
    unfolding checkLimits_rows by auto
  then show ?thesis
    by (cases entry) (auto simp: limitStep_def split: option.splits if_splits)
qed

lemma checkLimits_retains:
  assumes "(key, Some props) \<in> set limitsData"
    and "get_prop props ''Max'' = JNum (Finite (of_int M))"
    and "get_prop props ''Remaining'' = JNum (Finite (of_int R))"
    and "\<bar>M - R\<bar> < 2 ^ 53"
  shows "\<lparr>limName = key, limMax = JNum (Finite (of_int M)), limRemaining = JNum (Finite (of_int R)),
          limUsage = JNum (Finite (of_int (M - R))), limDescription = ''Description for '' @ key\<rparr>
         \<in> set (checkLimits r (Inr limitsData))"
proof -
  have "limitStep r [] (key, Some props) =
      [\<lparr>limName = key, limMax = JNum (Finite (of_int M)), limRemaining = JNum (Finite (of_int R)),
        limUsage = JNum (Finite (of_int (M - R))), limDescription = ''Description for '' @ key\<rparr>]"
    using assms(2,3) js_minus_integers [OF assms(4), of r] by (simp add: limitStep_def)
  with assms(1) show ?thesis
    unfolding checkLimits_rows by force
qed

lemma checkLimits_skips:
  assumes "distinct (map fst limitsData)" and "(key, info) \<in> set limitsData"
    and "info = None \<or> (\<exists>props. info = Some props \<and>
           (get_prop props ''Max'' = JUndefined \<or> get_prop props ''Remaining'' = JUndefined))"
  shows "key \<notin> limName ` set (checkLimits r (Inr limitsData))"
proof
  assume "key \<in> limName ` set (checkLimits r (Inr limitsData))"
  then obtain l where l: "l \<in> set (checkLimits r (Inr limitsData))" and name: "limName l = key"
    by auto
  from checkLimits_origin [OF l] name obtain props where
    there: "(key, Some props) \<in> set limitsData" and
    complete: "get_prop props ''Max'' \<noteq> JUndefined" "get_prop props ''Remaining'' \<noteq> JUndefined"
    by auto
  from assms(1) there assms(2) have "info = Some props"
    by (metis eq_key_imp_eq_value)
  with assms(3) complete show False by auto
qed

lemma limitsPhase_fragment:
  "limits fl \<Longrightarrow>
   limitsPhase w fl (s, errs) =
     (s\<lparr>Limits := Some (limitSummary (checkLimits (jsRuntime w) (limitsGet w)))\<rparr>, errs)"
  by (simp add: limitsPhase_def)

text \<open>The phases after the limits phase leave its fragment as it is.\<close>

lemma codePhase_limits: "Limits (fst (codePhase w fl st)) = Limits (fst st)"
  by (cases st) (simp add: codePhase_def Let_def split: sum.splits option.splits)

lemma testsPhase_limits:
  "testsPhase fuel w fl st = Some st' \<Longrightarrow> Limits (fst st') = Limits (fst st)"
  by (cases st) (auto simp: testsPhase_def split: option.splits if_splits)

lemma metadataPhase_limits: "Limits (fst (metadataPhase w fl st)) = Limits (fst st)"
  by (cases st) (simp add: metadataPhase_def split: sum.splits option.splits)

lemma runPhases_limits:
  assumes "runPhases fuel w fl st = Some st'" and "limits fl"
  shows "Limits (fst st') = Some (limitSummary (checkLimits (jsRuntime w) (limitsGet w)))"
proof -
  from assms(1) obtain tested where
    t: "testsPhase fuel w fl (codePhase w fl (limitsPhase w fl (healthPhase w fl st))) = Some tested"
    and m: "st' = metadataPhase w fl tested"
    by (auto simp: runPhases_def split: option.splits)
  have "Limits (fst (limitsPhase w fl (healthPhase w fl st)))
      = Some (limitSummary (checkLimits (jsRuntime w) (limitsGet w)))"
    using assms(2) by (cases "healthPhase w fl st") (simp add: limitsPhase_def)
  with testsPhase_limits [OF t] m show ?thesis
    by (simp add: metadataPhase_limits codePhase_limits)
qed

lemma summarizeOrg_limits:
  assumes "summarizeOrg fuel w fl orgSummary = Some (Inr r)" and "limits fl"
  shows "Limits (summary r) = Some (limitSummary (checkLimits (jsRuntime w) (limitsGet w)))"
proof -
  from summarizeOrg_returns [OF assms(1)] obtain collected where
    phases: "runPhases fuel w fl (initialSummary w orgSummary, []) = Some (collected, errors r)" and
    final: "summary r = collected\<lparr>ResultState := (if errors r = [] then ''Completed'' else ''Failure'')\<rparr>"
    by blast
  from runPhases_limits [OF phases assms(2)] final show ?thesis by simp
qed

text \<open>
  Claim C7. With the limits phase selected and a response from the limits endpoint, the
  phase stores a \<^verbatim>\<open>Limits\<close> fragment in the report and leaves the error list as
  it is; a run that returns returns the report with that fragment; and in the fragment:
  \<^verbatim>\<open>Details\<close> has one row for each entry of the response that has both
  \<^verbatim>\<open>Max\<close> and \<^verbatim>\<open>Remaining\<close>, in the order of the response, with the
  entry's name and the two values; the \<^verbatim>\<open>Usage\<close> of a row is the difference
  \<^verbatim>\<open>Max - Remaining\<close> as the language computes it, which for numbers \<open>M\<close> and
  \<open>R\<close> is the binary64 value nearest to \<open>M - R\<close>, and for integers with
  \<open>\<bar>M - R\<bar> < 2 ^ 53\<close> the integer \<open>M - R\<close> itself;
  \<^verbatim>\<open>Applicable\<close> is the number of retained entries, \<^verbatim>\<open>Reached\<close> the
  number of those whose \<^verbatim>\<open>Remaining\<close> is 0, and \<^verbatim>\<open>Unattained\<close> the
  difference of the two; an entry that is not an object, or lacks \<^verbatim>\<open>Max\<close> or
  \<^verbatim>\<open>Remaining\<close>, leaves no row of its name (the keys of the response being
  distinct); and an entry with integers \<open>M\<close> and \<open>R\<close> has its row, with
  \<^verbatim>\<open>Usage\<close> \<open>M - R\<close>.
\<close>

theorem limits_fragment_of_run:
  assumes "limits fl" and "limitsGet w = Inr limitsData"
  shows "\<exists>fragment. limitsPhase w fl (s, errs) = (s\<lparr>Limits := Some fragment\<rparr>, errs)
     \<and> (\<forall>r. summarizeOrg fuel w fl orgSummary = Some (Inr r) \<longrightarrow> Limits (summary r) = Some fragment)
     \<and> map (\<lambda>l. (limName l, limMax l, limRemaining l)) (limDetails fragment) = specifiedRows limitsData
     \<and> (\<forall>l \<in> set (limDetails fragment).
          limUsage l = js_minus (jsRuntime w) (limMax l) (limRemaining l)
          \<and> limDescription l = ''Description for '' @ limName l
          \<and> (\<forall>M R. limMax l = JNum (Finite M) \<and> limRemaining l = JNum (Finite R) \<longrightarrow>
               limUsage l = JNum (binary64 (M - R)))
          \<and> (\<forall>M R. limMax l = JNum (Finite (of_int M)) \<and> limRemaining l = JNum (Finite (of_int R))
                 \<and> \<bar>M - R\<bar> < 2 ^ 53 \<longrightarrow>
               limUsage l = JNum (Finite (of_int (M - R)))))
     \<and> Applicable fragment = length (specifiedRows limitsData)
     \<and> Reached fragment =
         length (filter (\<lambda>(key, M, R). R = JNum (Finite 0)) (specifiedRows limitsData))
     \<and> Unattained fragment = int (Applicable fragment) - int (Reached fragment)
     \<and> (\<forall>key info. distinct (map fst limitsData) \<and> (key, info) \<in> set limitsData
          \<and> (info = None \<or> (\<exists>props. info = Some props \<and>
                (get_prop props ''Max'' = JUndefined \<or> get_prop props ''Remaining'' = JUndefined))) \<longrightarrow>
          key \<notin> limName ` set (limDetails fragment))
     \<and> (\<forall>key props M R. (key, Some props) \<in> set limitsData
          \<and> get_prop props ''Max'' = JNum (Finite (of_int M))
          \<and> get_prop props ''Remaining'' = JNum (Finite (of_int R)) \<and> \<bar>M - R\<bar> < 2 ^ 53 \<longrightarrow>
          \<lparr>limName = key, limMax = JNum (Finite (of_int M)), limRemaining = JNum (Finite (of_int R)),
           limUsage = JNum (Finite (of_int (M - R))), limDescription = ''Description for '' @ key\<rparr>
          \<in> set (limDetails fragment))"
proof -
  let ?lims = "checkLimits (jsRuntime w) (Inr limitsData)"
  let ?fragment = "limitSummary ?lims"
  have stored: "limitsPhase w fl (s, errs) = (s\<lparr>Limits := Some ?fragment\<rparr>, errs)"
    using limitsPhase_fragment [OF assms(1), of w s errs] assms(2) by simp
  have returned: "\<forall>r. summarizeOrg fuel w fl orgSummary = Some (Inr r) \<longrightarrow> Limits (summary r) = Some ?fragment"
    using summarizeOrg_limits [of fuel w fl orgSummary, OF _ assms(1)] assms(2) by simp
  have details: "limDetails ?fragment = ?lims"
    by (simp add: limitSummary_def Let_def)
  have rows: "map (\<lambda>l. (limName l, limMax l, limRemaining l)) (limDetails ?fragment) = specifiedRows limitsData"
    unfolding details by (rule checkLimits_specifiedRows)
  have usage: "limUsage l = js_minus (jsRuntime w) (limMax l) (limRemaining l)
          \<and> limDescription l = ''Description for '' @ limName l
          \<and> (\<forall>M R. limMax l = JNum (Finite M) \<and> limRemaining l = JNum (Finite R) \<longrightarrow>
               limUsage l = JNum (binary64 (M - R)))
          \<and> (\<forall>M R. limMax l = JNum (Finite (of_int M)) \<and> limRemaining l = JNum (Finite (of_int R))
                 \<and> \<bar>M - R\<bar> < 2 ^ 53 \<longrightarrow>
               limUsage l = JNum (Finite (of_int (M - R))))"
    if "l \<in> set (limDetails ?fragment)" for l
  proof -
    from that have l: "l \<in> set ?lims" by (simp only: details)
    from checkLimits_origin [OF l] have u: "limUsage l = js_minus (jsRuntime w) (limMax l) (limRemaining l)"
      by blast
    from l obtain entry where "entry \<in> set limitsData" "l \<in> set (limitStep (jsRuntime w) [] entry)"
      unfolding checkLimits_rows by auto
    then have d: "limDescription l = ''Description for '' @ limName l"
      by (cases entry) (auto simp: limitStep_def split: option.splits if_splits)
    have numbers: "\<forall>M R. limMax l = JNum (Finite M) \<and> limRemaining l = JNum (Finite R) \<longrightarrow>
               limUsage l = JNum (binary64 (M - R))"
      using u by (auto simp: js_minus_def js_sub_def)
    have integers: "\<forall>M R. limMax l = JNum (Finite (of_int M)) \<and> limRemaining l = JNum (Finite (of_int R))
                 \<and> \<bar>M - R\<bar> < 2 ^ 53 \<longrightarrow>
               limUsage l = JNum (Finite (of_int (M - R)))"
      using u by (auto simp: js_minus_integers)
    show ?thesis by (intro conjI u d numbers integers)
  qed
  have applicable: "Applicable ?fragment = length (specifiedRows limitsData)"
  proof -
    have "Applicable ?fragment = length ?lims" by (simp add: limitSummary_def Let_def)
    also have "\<dots> = length (map (\<lambda>l. (limName l, limMax l, limRemaining l)) ?lims)" by simp
    also have "\<dots> = length (specifiedRows limitsData)" by (simp only: checkLimits_specifiedRows)
    finally show ?thesis .
  qed
  have reached: "Reached ?fragment =
         length (filter (\<lambda>(key, M, R). R = JNum (Finite 0)) (specifiedRows limitsData))"
  proof -
    have "Reached ?fragment = length (filter (\<lambda>l. limRemaining l = JNum (Finite 0)) ?lims)"
      by (simp add: limitSummary_def Let_def)
    also have "\<dots> = length (filter (\<lambda>(key, M, R). R = JNum (Finite 0))
                         (map (\<lambda>l. (limName l, limMax l, limRemaining l)) ?lims))"
      by (simp add: filter_map comp_def)
    also have "\<dots> = length (filter (\<lambda>(key, M, R). R = JNum (Finite 0)) (specifiedRows limitsData))"
      by (simp only: checkLimits_specifiedRows)
    finally show ?thesis .
  qed
  have unattained: "Unattained ?fragment = int (Applicable ?fragment) - int (Reached ?fragment)"
    by (simp add: limitSummary_def Let_def)
  have skipped: "key \<notin> limName ` set (limDetails ?fragment)"
    if "distinct (map fst limitsData) \<and> (key, info) \<in> set limitsData
          \<and> (info = None \<or> (\<exists>props. info = Some props \<and>
                (get_prop props ''Max'' = JUndefined \<or> get_prop props ''Remaining'' = JUndefined)))"
    for key info
    unfolding details using that checkLimits_skips [of limitsData key info "jsRuntime w"] by blast
  have kept: "\<lparr>limName = key, limMax = JNum (Finite (of_int M)), limRemaining = JNum (Finite (of_int R)),
           limUsage = JNum (Finite (of_int (M - R))), limDescription = ''Description for '' @ key\<rparr>
          \<in> set (limDetails ?fragment)"
    if "(key, Some props) \<in> set limitsData
          \<and> get_prop props ''Max'' = JNum (Finite (of_int M))
          \<and> get_prop props ''Remaining'' = JNum (Finite (of_int R)) \<and> \<bar>M - R\<bar> < 2 ^ 53"
    for key props M R
    unfolding details using that checkLimits_retains [of key props limitsData M R "jsRuntime w"] by blast
  show ?thesis
  proof (intro exI [of _ ?fragment] conjI)
    show "limitsPhase w fl (s, errs) = (s\<lparr>Limits := Some ?fragment\<rparr>, errs)" by (rule stored)
    show "\<forall>r. summarizeOrg fuel w fl orgSummary = Some (Inr r) \<longrightarrow> Limits (summary r) = Some ?fragment"
      by (rule returned)
    show "map (\<lambda>l. (limName l, limMax l, limRemaining l)) (limDetails ?fragment) = specifiedRows limitsData"
      by (rule rows)
    show "Applicable ?fragment = length (specifiedRows limitsData)" by (rule applicable)
    show "Reached ?fragment = length (filter (\<lambda>(key, M, R). R = JNum (Finite 0)) (specifiedRows limitsData))"
      by (rule reached)
    show "Unattained ?fragment = int (Applicable ?fragment) - int (Reached ?fragment)" by (rule unattained)
    show "\<forall>l \<in> set (limDetails ?fragment).
          limUsage l = js_minus (jsRuntime w) (limMax l) (limRemaining l)
          \<and> limDescription l = ''Description for '' @ limName l
          \<and> (\<forall>M R. limMax l = JNum (Finite M) \<and> limRemaining l = JNum (Finite R) \<longrightarrow>
               limUsage l = JNum (binary64 (M - R)))
          \<and> (\<forall>M R. limMax l = JNum (Finite (of_int M)) \<and> limRemaining l = JNum (Finite (of_int R))
                 \<and> \<bar>M - R\<bar> < 2 ^ 53 \<longrightarrow>
               limUsage l = JNum (Finite (of_int (M - R))))"
      using usage by blast
    show "\<forall>key info. distinct (map fst limitsData) \<and> (key, info) \<in> set limitsData
          \<and> (info = None \<or> (\<exists>props. info = Some props \<and>
                (get_prop props ''Max'' = JUndefined \<or> get_prop props ''Remaining'' = JUndefined))) \<longrightarrow>
          key \<notin> limName ` set (limDetails ?fragment)"
      using skipped by blast
    show "\<forall>key props M R. (key, Some props) \<in> set limitsData
          \<and> get_prop props ''Max'' = JNum (Finite (of_int M))
          \<and> get_prop props ''Remaining'' = JNum (Finite (of_int R)) \<and> \<bar>M - R\<bar> < 2 ^ 53 \<longrightarrow>
          \<lparr>limName = key, limMax = JNum (Finite (of_int M)), limRemaining = JNum (Finite (of_int R)),
           limUsage = JNum (Finite (of_int (M - R))), limDescription = ''Description for '' @ key\<rparr>
          \<in> set (limDetails ?fragment)"
      using kept by blast
  qed
qed

text \<open>
  Two entries, one complete (\<^verbatim>\<open>Max: 100, Remaining: 40\<close>) and one without
  \<^verbatim>\<open>Remaining\<close>, through a whole run: one row, usage 60, none reached, and no row
  for the second.
\<close>

theorem limits_fragment_witness:
  "limits (noPhases\<lparr>limits := True\<rparr>)
   \<and> limitsGet (quietEnv\<lparr>limitsGet := Inr
          [(''DailyApiRequests'', Some [(''Max'', JNum (Finite 100)), (''Remaining'', JNum (Finite 40))]),
           (''DataStorageMB'', Some [(''Max'', JNum (Finite 5))])]\<rparr>)
      = Inr [(''DailyApiRequests'', Some [(''Max'', JNum (Finite 100)), (''Remaining'', JNum (Finite 40))]),
             (''DataStorageMB'', Some [(''Max'', JNum (Finite 5))])]
   \<and> summarizeOrg 0
      (quietEnv\<lparr>limitsGet := Inr
          [(''DailyApiRequests'', Some [(''Max'', JNum (Finite 100)), (''Remaining'', JNum (Finite 40))]),
           (''DataStorageMB'', Some [(''Max'', JNum (Finite 5))])]\<rparr>)
      (noPhases\<lparr>limits := True\<rparr>) None
     = Some (Inr
       \<lparr>summary =
          \<lparr>Timestamp = ''1700000000000'', ResultState = ''Completed'', OrgId = ''00D000000000001'',
           Username = ''admin@example.com'', OrgInstanceURL = ''https://example.my.salesforce.com'',
           HealthCheck = None,
           Limits = Some \<lparr>Applicable = 1, Reached = 0, Unattained = 1,
              limDetails = [\<lparr>limName = ''DailyApiRequests'', limMax = JNum (Finite 100),
                             limRemaining = JNum (Finite 40), limUsage = JNum (Finite 60),
                             limDescription = ''Description for DailyApiRequests''\<rparr>]\<rparr>,
           Code = None, Tests = None, Metadata = None\<rparr>,
        errors = [], cleaned = True,
        persisted = Some (''out/00D000000000001/1700000000000/orgsummary.json'',
          \<lparr>Timestamp = ''1700000000000'', ResultState = ''Completed'', OrgId = ''00D000000000001'',
           Username = ''admin@example.com'', OrgInstanceURL = ''https://example.my.salesforce.com'',
           HealthCheck = None,
           Limits = Some \<lparr>Applicable = 1, Reached = 0, Unattained = 1,
              limDetails = [\<lparr>limName = ''DailyApiRequests'', limMax = JNum (Finite 100),
                             limRemaining = JNum (Finite 40), limUsage = JNum (Finite 60),
                             limDescription = ''Description for DailyApiRequests''\<rparr>]\<rparr>,
           Code = None, Tests = None, Metadata = None\<rparr>)\<rparr>)
   \<and> specifiedRows
        [(''DailyApiRequests'', Some [(''Max'', JNum (Finite 100)), (''Remaining'', JNum (Finite 40))]),
         (''DataStorageMB'', Some [(''Max'', JNum (Finite 5))])]
      = [(''DailyApiRequests'', JNum (Finite 100), JNum (Finite 40))]
   \<and> (\<exists>fragment.
        Limits (\<lparr>Timestamp = ''1700000000000'', ResultState = ''Completed'', OrgId = ''00D000000000001'',
           Username = ''admin@example.com'', OrgInstanceURL = ''https://example.my.salesforce.com'',
           HealthCheck = None,
           Limits = Some \<lparr>Applicable = 1, Reached = 0, Unattained = 1,
              limDetails = [\<lparr>limName = ''DailyApiRequests'', limMax = JNum (Finite 100),
                             limRemaining = JNum (Finite 40), limUsage = JNum (Finite 60),
                             limDescription = ''Description for DailyApiRequests''\<rparr>]\<rparr>,
           Code = None, Tests = None, Metadata = None\<rparr>) = Some fragment
        \<and> map (\<lambda>l. (limName l, limMax l, limRemaining l)) (limDetails fragment)
            = [(''DailyApiRequests'', JNum (Finite 100), JNum (Finite 40))]
        \<and> Applicable fragment = 1 \<and> Reached fragment = 0 \<and> Unattained fragment = 1
        \<and> ''DataStorageMB'' \<notin> limName ` set (limDetails fragment)
        \<and> map limUsage (limDetails fragment) = [JNum (Finite 60)])"
proof -
  let ?complete = "[(''Max'', JNum (Finite 100)), (''Remaining'', JNum (Finite 40))]"
  let ?partial = "[(''Max'', JNum (Finite 5))]"
  let ?data = "[(''DailyApiRequests'', Some ?complete), (''DataStorageMB'', Some ?partial)]"
  let ?w = "quietEnv\<lparr>limitsGet := Inr ?data\<rparr>" and ?fl = "noPhases\<lparr>limits := True\<rparr>"
  let ?report =
    "\<lparr>Timestamp = ''1700000000000'', ResultState = ''Completed'', OrgId = ''00D000000000001'',
      Username = ''admin@example.com'', OrgInstanceURL = ''https://example.my.salesforce.com'',
      HealthCheck = None,
      Limits = Some \<lparr>Applicable = 1, Reached = 0, Unattained = 1,
         limDetails = [\<lparr>limName = ''DailyApiRequests'', limMax = JNum (Finite 100),
                        limRemaining = JNum (Finite 40), limUsage = JNum (Finite 60),
                        limDescription = ''Description for DailyApiRequests''\<rparr>]\<rparr>,
      Code = None, Tests = None, Metadata = None\<rparr>"
  let ?result = "\<lparr>summary = ?report, errors = [], cleaned = True,
        persisted = Some (''out/00D000000000001/1700000000000/orgsummary.json'', ?report)\<rparr>"
  have sixty: "binary64 60 = Finite 60"
    using binary64_of_int [of 60] by simp
  have run: "summarizeOrg 0 ?w ?fl None = Some (Inr ?result)"
    by (simp add: run_defs sample_defs checkLimits_def limitSummary_def limitStep_def get_prop_def
        js_minus_def js_sub_def sixty)
  have selected: "limits ?fl" by simp
  have response: "limitsGet ?w = Inr ?data" by simp
  have entries: "specifiedRows ?data = [(''DailyApiRequests'', JNum (Finite 100), JNum (Finite 40))]"
    by (simp add: specifiedRows_def get_prop_def)
  have missing: "distinct (map fst ?data) \<and> (''DataStorageMB'', Some ?partial) \<in> set ?data
      \<and> (Some ?partial = None \<or> (\<exists>props. Some ?partial = Some props \<and>
            (get_prop props ''Max'' = JUndefined \<or> get_prop props ''Remaining'' = JUndefined)))"
    by (simp add: get_prop_def)
  from limits_fragment_of_run [OF selected response, of "initialSummary ?w None" "[]" 0 None]
  obtain fragment where
    phase: "limitsPhase ?w ?fl (initialSummary ?w None, [])
              = ((initialSummary ?w None)\<lparr>Limits := Some fragment\<rparr>, [])" and
    returned: "\<forall>r. summarizeOrg 0 ?w ?fl None = Some (Inr r) \<longrightarrow> Limits (summary r) = Some fragment" and
    rows: "map (\<lambda>l. (limName l, limMax l, limRemaining l)) (limDetails fragment) = specifiedRows ?data" and
    usage: "\<forall>l \<in> set (limDetails fragment).
          limUsage l = js_minus (jsRuntime ?w) (limMax l) (limRemaining l)
          \<and> limDescription l = ''Description for '' @ limName l
          \<and> (\<forall>M R. limMax l = JNum (Finite M) \<and> limRemaining l = JNum (Finite R) \<longrightarrow>
               limUsage l = JNum (binary64 (M - R)))
          \<and> (\<forall>M R. limMax l = JNum (Finite (of_int M)) \<and> limRemaining l = JNum (Finite (of_int R))
                 \<and> \<bar>M - R\<bar> < 2 ^ 53 \<longrightarrow>
               limUsage l = JNum (Finite (of_int (M - R))))" and
    applicable: "Applicable fragment = length (specifiedRows ?data)" and
    reached: "Reached fragment =
         length (filter (\<lambda>(key, M, R). R = JNum (Finite 0)) (specifiedRows ?data))" and
    unattained: "Unattained fragment = int (Applicable fragment) - int (Reached fragment)" and
    skipped: "\<forall>key info. distinct (map fst ?data) \<and> (key, info) \<in> set ?data
          \<and> (info = None \<or> (\<exists>props. info = Some props \<and>
                (get_prop props ''Max'' = JUndefined \<or> get_prop props ''Remaining'' = JUndefined))) \<longrightarrow>
          key \<notin> limName ` set (limDetails fragment)"
    by (elim exE conjE) (rule that)
  from skipped [rule_format, of "''DataStorageMB''" "Some ?partial", OF missing]
  have dropped: "''DataStorageMB'' \<notin> limName ` set (limDetails fragment)" .
  have sixty_used: "\<forall>l \<in> set (limDetails fragment). limUsage l = JNum (Finite 60)"
  proof
    fix l assume l: "l \<in> set (limDetails fragment)"
    then have "(limName l, limMax l, limRemaining l) \<in> set (specifiedRows ?data)"
      using rows by (metis (mono_tags, lifting) image_eqI list.set_map)
    then have "limMax l = JNum (Finite (of_int 100))" "limRemaining l = JNum (Finite (of_int 40))"
      by (simp_all add: entries)
    moreover have "\<bar>100 - 40 :: int\<bar> < 2 ^ 53" by simp
    ultimately have "limUsage l = JNum (Finite (of_int (100 - 40)))"
      using usage [rule_format, OF l, THEN conjunct2, THEN conjunct2, THEN conjunct2, rule_format, of 100 40]
      by blast
    then show "limUsage l = JNum (Finite 60)" by simp
  qed
  from returned [rule_format, OF run] have held: "Limits ?report = Some fragment" by simp
  from rows entries have listed:
    "map (\<lambda>l. (limName l, limMax l, limRemaining l)) (limDetails fragment)
       = [(''DailyApiRequests'', JNum (Finite 100), JNum (Finite 40))]" by simp
  from applicable entries have one: "Applicable fragment = 1" by simp
  from reached entries have none: "Reached fragment = 0" by simp
  from unattained one none have left: "Unattained fragment = 1" by simp
  from listed obtain l where single: "limDetails fragment = [l]" by auto
  with sixty_used have usages: "map limUsage (limDetails fragment) = [JNum (Finite 60)]" by simp
  have "\<exists>fragment. Limits ?report = Some fragment
        \<and> map (\<lambda>l. (limName l, limMax l, limRemaining l)) (limDetails fragment)
            = [(''DailyApiRequests'', JNum (Finite 100), JNum (Finite 40))]
        \<and> Applicable fragment = 1 \<and> Reached fragment = 0 \<and> Unattained fragment = 1
        \<and> ''DataStorageMB'' \<notin> limName ` set (limDetails fragment)
        \<and> map limUsage (limDetails fragment) = [JNum (Finite 60)]"
    by (rule exI [of _ fragment]) (intro conjI held listed one none left dropped usages)
  with selected response run entries show ?thesis by (intro conjI)
qed

lemma limits_of_two_entries:
  "limitSummary (checkLimits r (Inr
      [(''DailyApiRequests'', Some [(''Max'', JNum (Finite 100)), (''Remaining'', JNum (Finite 40))]),
       (''DataStorageMB'', Some [(''Max'', JNum (Finite 5))])]))
   = \<lparr>Applicable = 1, Reached = 0, Unattained = 1,
      limDetails = [\<lparr>limName = ''DailyApiRequests'', limMax = JNum (Finite 100),
                     limRemaining = JNum (Finite 40), limUsage = JNum (Finite 60),
                     limDescription = ''Description for DailyApiRequests''\<rparr>]\<rparr>"
  using binary64_of_int [of 60]
  by (simp add: limitSummary_def checkLimits_def limitStep_def get_prop_def js_minus_def js_sub_def)

subsection \<open>The poll\<close>

lemma pollTick_swallowed:
  assumes "asyncApexJobQuery w tick = Inl e" "stderr e = Some s"
  shows "pollTick w jobId tick status = status"
  using assms by (simp add: pollTick_def queryMetadata_def handleQueryError_def Let_def)

lemma pollTick_thrown:
  assumes "asyncApexJobQuery w tick = Inl e" "stderr e = None"
  shows "pollTick w jobId tick status = JStr ''Failed''"
  using assms by (simp add: pollTick_def queryMetadata_def handleQueryError_def)

lemma pollLoop_terminal:
  assumes "status \<noteq> JStr ''Queued''" "status \<noteq> JStr ''Processing''"
  shows "pollLoop fuel w jobId tick status = Some (status, 5000 * tick)"
  using assms by (cases fuel) simp_all

text \<open>A first answer with a terminal status ends the poll after one tick and one wait.\<close>

lemma pollTestRunResult_first_answer:
  assumes "asyncApexJobQuery w 0 = Inr (row # rest)" "get_prop row ''Status'' = JStr ''Completed''"
  shows "pollTestRunResult (Suc fuel) w jobId = Some (JStr ''Completed'', 5000)"
  using assms
  by (simp add: pollTestRunResult_def pollTick_def queryMetadata_def pollLoop_terminal)

text \<open>An error without \<^verbatim>\<open>stderr\<close> is the one failure that ends the poll as \<^verbatim>\<open>'Failed'\<close>.\<close>

lemma pollTestRunResult_thrown:
  assumes "asyncApexJobQuery w 0 = Inl e" "stderr e = None"
  shows "pollTestRunResult (Suc fuel) w jobId = Some (JStr ''Failed'', 5000)"
  using assms
  by (simp add: pollTestRunResult_def pollTick_thrown pollLoop_terminal)

text \<open>While every status query fails as a command, the poll goes on, whatever the fuel.\<close>

lemma pollLoop_never_ends:
  assumes "\<And>t. \<exists>e s. asyncApexJobQuery w t = Inl e \<and> stderr e = Some s"
  shows "pollLoop fuel w jobId tick (JStr ''Queued'') = None"
proof (induction fuel arbitrary: tick)
  case 0
  show ?case by simp
next
  case (Suc fuel)
  from assms obtain e s where "asyncApexJobQuery w tick = Inl e" "stderr e = Some s" by blast
  then have "pollTick w jobId tick (JStr ''Queued'') = JStr ''Queued''"
    by (rule pollTick_swallowed)
  with Suc.IH show ?case by simp
qed

text \<open>
  Claim C3, at the input where the code departs from it: the status query fails as a
  command at every tick. \<^verbatim>\<open>queryMetadata\<close> turns the failure into an empty result,
  the status stays \<^verbatim>\<open>'Queued'\<close>, and the poll queries again: it has not returned
  after any number of ticks.
\<close>

theorem pollTestRunResult_failing_query:
  "pollTestRunResult fuel (quietEnv\<lparr>asyncApexJobQuery := (\<lambda>tick. Inl commandFailed)\<rparr>) ''707000000000001'' = None"
  unfolding pollTestRunResult_def
  by (rule pollLoop_never_ends) (simp add: commandFailed_def)

subsection \<open>Risks per line\<close>

lemma calculateCodeLines_no_files:
  assumes "classesFiles w = Inr []" "triggersFiles w = Inr []" "auraFiles w = Inr []"
    "lwcFiles w = Inr []" "staticresourcesFiles w = Inr []"
  shows "\<exists>codeLines. calculateCodeLines w = Inr codeLines \<and>
     RisksPerLineRatio (codeFragment results codeLines) = (if results = [] then NaN else Infinity)
     \<and> LinesOfCode (codeFragment results codeLines) = 0"
  using assms
  by (simp add: calculateCodeLines_def countCodeLines_def try_bind_def codeFragment_def signed_infinity_def)

text \<open>
  Claim C4, at the input where the code departs from it: the static analysis phase over
  no source file and an empty scanner output. The phase succeeds, and the ratio stored in
  the report is \<^verbatim>\<open>0 / 0\<close>, that is \<^verbatim>\<open>NaN\<close>, not 0.
\<close>

theorem code_phase_no_source_files:
  "case summarizeOrg 0 quietEnv (noPhases\<lparr>codeanalysis := True\<rparr>) None of
     Some (Inr r) \<Rightarrow> ResultState (summary r) = ''Completed'' \<and>
        map_option RisksPerLineRatio (Code (summary r)) = Some NaN
   | _ \<Rightarrow> False"
  by (simp add: run_defs sample_defs preprocessResults_def readCsvFile_def calculateCodeLines_def
      countCodeLines_def try_bind_def codeFragment_def)

subsection \<open>Test outcome\<close>

text \<open>The classification as written: strict equality with the string and with the number 0.\<close>

lemma getTestRunDetails_outcome:
  "getTestRunDetails w jobId = Some t \<Longrightarrow>
     \<exists>row rest. queryMetadata q (testRunResultQuery w) = Inr (row # rest) \<and>
       (outcome t = ''Pass'' \<longleftrightarrow>
          get_prop row ''Status'' = JStr ''Completed'' \<and> get_prop row ''MethodsFailed'' = JNum (Finite 0))
       \<and> (outcome t = ''Pass'' \<or> outcome t = ''Fail'')"
  by (auto simp: getTestRunDetails_def queryMetadata_def split: sum.splits list.splits if_splits)

text \<open>
  Claim C5, at the input where the code departs from it: a row as the CSV parser returns
  it, every cell a string. The run is \<^verbatim>\<open>Completed\<close> with no failed method, and the
  outcome is \<^verbatim>\<open>'Fail'\<close>: the string \<^verbatim>\<open>'0'\<close> is not strictly equal to the number 0.
\<close>

theorem getTestRunDetails_parsed_row:
  "getTestRunDetails
     (quietEnv\<lparr>testRunResultQuery :=
        Inr [[(''Status'', JStr ''Completed''), (''TestTime'', JStr ''1200''),
              (''MethodsCompleted'', JStr ''10''), (''MethodsFailed'', JStr ''0'')]]\<rparr>)
     ''707000000000001''
   = Some \<lparr>outcome = ''Fail'', runtime = JStr ''1200'', methodsCompleted = JStr ''10'',
           methodsFailed = JStr ''0''\<rparr>"
  by (simp add: getTestRunDetails_def queryMetadata_def get_prop_def)

subsection \<open>Coverage percentage\<close>

text \<open>Two facts of arithmetic about relative errors of one part in \<open>2 ^ 53\<close>.\<close>

lemma rounded_lower:
  fixes q x :: rat
  assumes "\<bar>q - x\<bar> \<le> x / 2 ^ 53" "1 / 2 ^ 53 < x"
  shows "1 / 2 ^ 54 \<le> q"
proof -
  define c :: rat where "c = 1 / 2 ^ 54"
  have "1 / 2 ^ 53 = 2 * c" by (simp add: c_def)
  with assms(2) have x: "2 * c < x" by simp
  have "0 < c" by (simp add: c_def)
  with x have x0: "0 \<le> x" by simp
  have "x / 2 ^ 53 \<le> x / 2" using x0 by (intro divide_left_mono) simp_all
  with assms(1) have "\<bar>q - x\<bar> \<le> x / 2" by (rule order_trans)
  with x have "c \<le> q" by linarith
  then show ?thesis by (simp only: c_def)
qed

lemma rounded_twice:
  fixes p q x :: rat
  assumes "\<bar>p - q * 100\<bar> \<le> (q * 100) / 2 ^ 53" "\<bar>q - x\<bar> \<le> x / 2 ^ 53" "0 \<le> x"
  shows "\<bar>p - 100 * x\<bar> \<le> (100 * x) / 2 ^ 51"
proof -
  define u :: rat where "u = 1 / 2 ^ 53"
  define t where "t = x * u"
  have u: "0 \<le> u" "u \<le> 1" by (simp_all add: u_def)
  have t0: "0 \<le> t" using assms(3) u(1) by (simp add: t_def)
  have t1: "t \<le> x" using assms(3) u by (simp add: t_def mult_left_le)
  from assms(2) have qerr: "\<bar>q - x\<bar> \<le> t" by (simp add: t_def u_def)
  with t1 have q2: "q \<le> 2 * x" by linarith
  from q2 u(1) have "q * u \<le> (2 * x) * u" by (rule mult_right_mono)
  then have qu: "q * u \<le> 2 * t" by (simp add: t_def)
  from assms(1) have "\<bar>p - q * 100\<bar> \<le> 100 * (q * u)" by (simp add: u_def)
  with qu have perr: "\<bar>p - q * 100\<bar> \<le> 200 * t" by linarith
  from perr qerr t0 have "\<bar>p - 100 * x\<bar> \<le> 400 * t" by linarith
  also have "400 * t = (100 * x) / 2 ^ 51" by (simp add: t_def u_def)
  finally show ?thesis .
qed

text \<open>
  The quotient of a count by a total, rounded: between 0 and 1, and within one part in
  \<open>2 ^ 53\<close> of the exact quotient.
\<close>

lemma coverage_quotient:
  fixes C T :: nat
  assumes "0 < C" "C \<le> T" "T < 2 ^ 53"
  shows "\<exists>q. binary64 (of_nat C / of_nat T) = Finite q \<and> 0 < q \<and> q \<le> 1
     \<and> \<bar>q - of_nat C / of_nat T\<bar> \<le> (of_nat C / of_nat T) / 2 ^ 53
     \<and> 1 / 2 ^ 54 \<le> q"
proof -
  define x :: rat where "x = of_nat C / of_nat T"
  from assms(1,2) have T: "(0::rat) < of_nat T" by simp
  from assms(2) have "(of_nat C :: rat) \<le> of_nat T" by (simp only: of_nat_le_iff)
  with T have le1: "x \<le> of_nat 1" by (simp add: x_def divide_le_eq)
  have ge0: "0 \<le> x" by (simp add: x_def)
  from binary64_bounded [OF ge0 le1] obtain q where
    q: "binary64 x = Finite q" and q0: "0 \<le> q" and q1: "q \<le> 1" by auto
  from assms(3) have "(of_nat T :: rat) < of_nat (2 ^ 53)" by (simp only: of_nat_less_iff)
  then have T53: "(of_nat T :: rat) < 2 ^ 53" by simp
  from assms(1) have "(of_nat 1 :: rat) \<le> of_nat C" by (simp only: of_nat_le_iff)
  then have "1 / of_nat T \<le> x" using T by (simp add: x_def divide_right_mono)
  moreover have "1 / 2 ^ 53 < 1 / (of_nat T :: rat)" using T T53 by (simp add: frac_less2)
  ultimately have low: "1 / 2 ^ 53 < x" by (rule less_le_trans [rotated])
  have "(2::rat) powi (- 1022) \<le> 1 / 2 ^ 53" by (simp add: power_int_minus_divide)
  also from low have "1 / 2 ^ 53 \<le> x" by (rule less_imp_le)
  finally have normal: "2 powi (- 1022) \<le> x" .
  from binary64_error [OF normal q] have err: "\<bar>q - x\<bar> \<le> x / 2 ^ 53" .
  from err low have "1 / 2 ^ 54 \<le> q" by (rule rounded_lower)
  moreover from this have "0 < q" by (rule less_le_trans [rotated]) simp
  ultimately show ?thesis using q q1 err unfolding x_def by blast
qed

text \<open>The product by 100 of such a quotient, rounded.\<close>

lemma coverage_product:
  assumes "1 / 2 ^ 54 \<le> q" "q \<le> 1"
  shows "\<exists>p. binary64 (q * 100) = Finite p \<and> 0 \<le> p \<and> p \<le> 100
     \<and> \<bar>p - q * 100\<bar> \<le> (q * 100) / 2 ^ 53"
proof -
  from assms(1) have q0: "0 \<le> q" by (rule order_trans [rotated]) simp
  then have ge0: "0 \<le> q * 100" by simp
  from assms(2) have le: "q * 100 \<le> of_nat 100" by simp
  from binary64_bounded [OF ge0 le] obtain p where
    p: "binary64 (q * 100) = Finite p" and range: "0 \<le> p" "p \<le> 100" by auto
  have "(2::rat) powi (- 1022) \<le> 1 / 2 ^ 54" by (simp add: power_int_minus_divide)
  also have "\<dots> \<le> q * 100" using assms(1) q0 by simp
  finally have normal: "2 powi (- 1022) \<le> q * 100" .
  from binary64_error [OF normal p] p range show ?thesis by blast
qed

lemma calculateCoveragePercentage_total:
  assumes "C + U < 2 ^ 53"
  shows "js_plus r (JNum (Finite (of_nat C))) (JNum (Finite (of_nat U))) = JNum (Finite (of_nat (C + U)))"
  using binary64_of_nat [OF assms] by (simp add: js_plus_def)

lemma calculateCoveragePercentage_counts:
  assumes "C + U < 2 ^ 53"
  shows "calculateCoveragePercentage r (JNum (Finite (of_nat C))) (JNum (Finite (of_nat U))) =
     (if C + U = 0 then JNum (Finite 0)
      else JNum (js_mul (js_div (Finite (of_nat C)) (Finite (of_nat (C + U)))) (Finite 100)))"
  unfolding calculateCoveragePercentage_def calculateCoveragePercentage_total [OF assms]
  by (simp add: js_gt_zero_def js_times_def js_divide_def)

text \<open>
  While the sum of the counts is below \<open>2 ^ 53\<close> it is exact, and the result is the
  rounded product by 100 of the rounded quotient.
\<close>

lemma calculateCoveragePercentage_exact_sum:
  assumes "C + U < 2 ^ 53"
  shows "\<exists>p. calculateCoveragePercentage r (JNum (Finite (of_nat C))) (JNum (Finite (of_nat U))) = JNum (Finite p)
     \<and> (C + U = 0 \<longrightarrow> p = 0)
     \<and> (0 < C + U \<longrightarrow>
          Finite p = js_mul (js_div (Finite (of_nat C)) (Finite (of_nat (C + U)))) (Finite 100)
          \<and> \<bar>p - 100 * of_nat C / of_nat (C + U)\<bar> \<le> (100 * of_nat C / of_nat (C + U)) / 2 ^ 51)
     \<and> 0 \<le> p \<and> p \<le> 100"
proof (cases "C = 0")
  case True
  have zero: "binary64 0 = Finite 0" by (simp add: binary64_def)
  have product: "js_mul (js_div (Finite (of_nat C)) (Finite (of_nat (C + U)))) (Finite 100) = Finite 0"
    if "0 < C + U"
    using that True by (simp add: zero)
  have returned:
    "calculateCoveragePercentage r (JNum (Finite (of_nat C))) (JNum (Finite (of_nat U))) = JNum (Finite 0)"
    unfolding calculateCoveragePercentage_counts [OF assms] using product by simp
  have close: "\<bar>0 - 100 * of_nat C / of_nat (C + U)\<bar> \<le> (100 * of_nat C / of_nat (C + U) :: rat) / 2 ^ 51"
    using True by simp
  have none: "C + U = 0 \<longrightarrow> (0::rat) = 0" by simp
  have some: "0 < C + U \<longrightarrow>
      Finite 0 = js_mul (js_div (Finite (of_nat C)) (Finite (of_nat (C + U)))) (Finite 100)
      \<and> \<bar>0 - 100 * of_nat C / of_nat (C + U)\<bar> \<le> (100 * of_nat C / of_nat (C + U) :: rat) / 2 ^ 51"
    using product close by simp
  have range: "(0::rat) \<le> 0" "(0::rat) \<le> 100" by simp_all
  show ?thesis
    by (intro exI [of _ 0] conjI returned none some range)
next
  case False
  then have C: "0 < C" and total: "0 < C + U" "C + U \<noteq> 0" by simp_all
  define x :: rat where "x = of_nat C / of_nat (C + U)"
  have x0: "0 \<le> x" by (simp add: x_def)
  from coverage_quotient [OF C _ assms] obtain q where
    q: "binary64 x = Finite q" and q1: "q \<le> 1" and q54: "1 / 2 ^ 54 \<le> q" and
    qerr: "\<bar>q - x\<bar> \<le> x / 2 ^ 53"
    unfolding x_def by auto
  from coverage_product [OF q54 q1] obtain p where
    p: "binary64 (q * 100) = Finite p" and range: "0 \<le> p" "p \<le> 100" and
    perr: "\<bar>p - q * 100\<bar> \<le> (q * 100) / 2 ^ 53"
    by auto
  have nz: "(of_nat (C + U) :: rat) \<noteq> 0"
    using total(2) by (simp only: of_nat_eq_0_iff not_False_eq_True)
  have "js_div (Finite (of_nat C)) (Finite (of_nat (C + U))) = Finite q"
    using nz q unfolding x_def by (simp only: js_div.simps if_False)
  then have product: "js_mul (js_div (Finite (of_nat C)) (Finite (of_nat (C + U)))) (Finite 100) = Finite p"
    using p by (simp only: js_mul.simps)
  from perr qerr x0 have "\<bar>p - 100 * x\<bar> \<le> (100 * x) / 2 ^ 51"
    by (rule rounded_twice)
  then have close: "\<bar>p - 100 * of_nat C / of_nat (C + U)\<bar> \<le> (100 * of_nat C / of_nat (C + U)) / 2 ^ 51"
    by (simp add: x_def)
  have returned:
    "calculateCoveragePercentage r (JNum (Finite (of_nat C))) (JNum (Finite (of_nat U))) = JNum (Finite p)"
    unfolding calculateCoveragePercentage_counts [OF assms] product using total(2) by (simp only: if_False)
  have none: "C + U = 0 \<longrightarrow> p = 0" using total(2) by blast
  have some: "0 < C + U \<longrightarrow>
      Finite p = js_mul (js_div (Finite (of_nat C)) (Finite (of_nat (C + U)))) (Finite 100)
      \<and> \<bar>p - 100 * of_nat C / of_nat (C + U)\<bar> \<le> (100 * of_nat C / of_nat (C + U)) / 2 ^ 51"
    using product close by (simp only: simp_thms)
  show ?thesis
    by (intro exI [of _ p] conjI returned none some range)
qed

text \<open>
  Whatever the counts, the result is a number between 0 and 100. The sum can be rounded,
  and it can overflow to \<^verbatim>\<open>Infinity\<close>; it is never below the count it is
  divided into.
\<close>

lemma calculateCoveragePercentage_numbers:
  "calculateCoveragePercentage r (JNum (Finite c)) (JNum (Finite u)) =
     (if js_gt_number (binary64 (c + u)) (Finite 0)
      then JNum (js_mul (js_div (Finite c) (binary64 (c + u))) (Finite 100))
      else JNum (Finite 0))"
  by (simp add: calculateCoveragePercentage_def js_plus_def js_gt_zero_def js_times_def
      js_divide_def Let_def)

lemma calculateCoveragePercentage_range:
  assumes "binary64 (of_nat C) = Finite (of_nat C)"
  shows "\<exists>p. calculateCoveragePercentage r (JNum (Finite (of_nat C))) (JNum (Finite (of_nat U))) = JNum (Finite p)
     \<and> (C + U = 0 \<longrightarrow> p = 0) \<and> 0 \<le> p \<and> p \<le> 100"
proof -
  define c u :: rat where "c = of_nat C" and "u = of_nat U"
  have c0: "0 \<le> c" and u0: "0 \<le> u" by (simp_all add: c_def u_def)
  have zero: "binary64 0 = Finite 0" by (simp add: binary64_def)
  have "\<exists>p. (if js_gt_number (binary64 (c + u)) (Finite 0)
             then JNum (js_mul (js_div (Finite c) (binary64 (c + u))) (Finite 100))
             else JNum (Finite 0)) = JNum (Finite p)
     \<and> (c + u = 0 \<longrightarrow> p = 0) \<and> 0 \<le> p \<and> p \<le> 100"
  proof (cases "binary64 (c + u)")
    case (Finite t)
    show ?thesis
    proof (cases "0 < t")
      case False
      with Finite show ?thesis by simp
    next
      case True
      have "c \<le> t"
      proof (cases "C = 0")
        case True
        with \<open>0 < t\<close> show ?thesis by (simp add: c_def)
      next
        case False
        then have "0 < c" by (simp add: c_def)
        moreover have "binary64 c = Finite c" using assms by (simp only: c_def)
        moreover have "c \<le> c + u" using u0 by simp
        ultimately show ?thesis using Finite by (rule binary64_ge_representable)
      qed
      with True c0 have "0 \<le> c / t" "c / t \<le> of_nat 1" by (simp_all add: divide_le_eq)
      from binary64_bounded [OF this] obtain q where
        q: "binary64 (c / t) = Finite q" and q0: "0 \<le> q" and q1: "q \<le> 1" by auto
      from q0 q1 have "0 \<le> q * 100" "q * 100 \<le> of_nat 100" by simp_all
      from binary64_bounded [OF this] obtain p where
        p: "binary64 (q * 100) = Finite p" and range: "0 \<le> p" "p \<le> 100" by auto
      have nonzero: "c + u \<noteq> 0"
      proof
        assume "c + u = 0"
        with Finite zero True show False by simp
      qed
      from True have "t \<noteq> 0" by simp
      then have "js_mul (js_div (Finite c) (Finite t)) (Finite 100) = Finite p"
        using q p by simp
      with True Finite range nonzero show ?thesis by simp
    qed
  next
    case NaN
    then show ?thesis by simp
  next
    case Infinity
    then show ?thesis by (simp add: zero)
  next
    case NegInfinity
    then show ?thesis by simp
  qed
  then show ?thesis
    unfolding calculateCoveragePercentage_numbers c_def u_def
    by (simp only: of_nat_add [symmetric] of_nat_eq_0_iff)
qed

text \<open>
  Claim C6, as the code has it. For counts \<open>C\<close> and \<open>U\<close> (natural numbers
  passed as numbers, \<open>C\<close> a binary64 value), \<^verbatim>\<open>calculateCoveragePercentage(C, U)\<close>
  is a number between 0 and 100, and 0 when \<open>C + U = 0\<close>. When
  \<open>0 < C + U < 2 ^ 53\<close> it is the rounded product by 100 of the rounded quotient
  \<open>C / (C + U)\<close>, which lies within one part in \<open>2 ^ 51\<close> of
  \<open>100 * C / (C + U)\<close>.
\<close>

theorem calculateCoveragePercentage_rounded:
  assumes "binary64 (of_nat C) = Finite (of_nat C)"
  shows "\<exists>p. calculateCoveragePercentage r (JNum (Finite (of_nat C))) (JNum (Finite (of_nat U))) = JNum (Finite p)
     \<and> (C + U = 0 \<longrightarrow> p = 0)
     \<and> (0 < C + U \<and> C + U < 2 ^ 53 \<longrightarrow>
          Finite p = js_mul (js_div (Finite (of_nat C)) (Finite (of_nat (C + U)))) (Finite 100)
          \<and> \<bar>p - 100 * of_nat C / of_nat (C + U)\<bar> \<le> (100 * of_nat C / of_nat (C + U)) / 2 ^ 51)
     \<and> 0 \<le> p \<and> p \<le> 100"
proof -
  from calculateCoveragePercentage_range [OF assms, of r U] obtain p where
    returned: "calculateCoveragePercentage r (JNum (Finite (of_nat C))) (JNum (Finite (of_nat U))) = JNum (Finite p)"
    and none: "C + U = 0 \<longrightarrow> p = 0" and range: "0 \<le> p" "p \<le> 100"
    by blast
  have some: "0 < C + U \<and> C + U < 2 ^ 53 \<longrightarrow>
      Finite p = js_mul (js_div (Finite (of_nat C)) (Finite (of_nat (C + U)))) (Finite 100)
      \<and> \<bar>p - 100 * of_nat C / of_nat (C + U)\<bar> \<le> (100 * of_nat C / of_nat (C + U)) / 2 ^ 51"
  proof
    assume sum: "0 < C + U \<and> C + U < 2 ^ 53"
    then have "C + U < 2 ^ 53" ..
    from calculateCoveragePercentage_exact_sum [OF this, of r] obtain p' where
      same: "calculateCoveragePercentage r (JNum (Finite (of_nat C))) (JNum (Finite (of_nat U))) = JNum (Finite p')"
      and exact: "0 < C + U \<longrightarrow>
          Finite p' = js_mul (js_div (Finite (of_nat C)) (Finite (of_nat (C + U)))) (Finite 100)
          \<and> \<bar>p' - 100 * of_nat C / of_nat (C + U)\<bar> \<le> (100 * of_nat C / of_nat (C + U)) / 2 ^ 51"
      by blast
    from returned same have "p' = p" by simp
    with exact sum show "Finite p = js_mul (js_div (Finite (of_nat C)) (Finite (of_nat (C + U)))) (Finite 100)
      \<and> \<bar>p - 100 * of_nat C / of_nat (C + U)\<bar> \<le> (100 * of_nat C / of_nat (C + U)) / 2 ^ 51"
      by blast
  qed
  show ?thesis
    by (intro exI [of _ p] conjI returned none some range)
qed

text \<open>Seven lines covered and 93 not: the bounds hold, and the value is not 7.\<close>

lemma exponent_of_seven_hundredths: "exponent_of (7 / 100) = - 4"
  by (rule exponent_of_eq) (simp_all add: power_int_minus_divide)

lemma binary64_seven_hundredths:
  "binary64 (7 / 100) = Finite (1261007895663739 / 18014398509481984)"
  by (simp add: binary64_def exponent_of_seven_hundredths round_even_def Let_def
      power_int_minus_divide floor_numeral_quotient)

lemma exponent_of_seven_percent: "exponent_of (31525197391593475 / 4503599627370496) = 2"
  by (rule exponent_of_eq) simp_all

lemma binary64_seven_percent:
  "binary64 (31525197391593475 / 4503599627370496) = Finite (7881299347898369 / 1125899906842624)"
  by (simp add: binary64_def exponent_of_seven_percent round_even_def Let_def
      power_int_minus_divide floor_numeral_quotient)

lemma calculateCoveragePercentage_7_93:
  "calculateCoveragePercentage r (JNum (Finite 7)) (JNum (Finite 93))
     = JNum (Finite (7881299347898369 / 1125899906842624))"
proof -
  have "calculateCoveragePercentage r (JNum (Finite (of_nat 7))) (JNum (Finite (of_nat 93)))
      = JNum (js_mul (js_div (Finite (of_nat 7)) (Finite (of_nat (7 + 93)))) (Finite 100))"
    by (subst calculateCoveragePercentage_counts) simp_all
  also have "\<dots> = JNum (Finite (7881299347898369 / 1125899906842624))"
    by (simp add: binary64_seven_hundredths binary64_seven_percent)
  finally show ?thesis by simp
qed

theorem calculateCoveragePercentage_witness:
  "binary64 7 = Finite 7
   \<and> (\<exists>p. calculateCoveragePercentage (jsRuntime quietEnv) (JNum (Finite 7)) (JNum (Finite 93)) = JNum (Finite p)
        \<and> \<bar>p - 7\<bar> \<le> 7 / 2 ^ 51 \<and> 0 \<le> p \<and> p \<le> 100)"
proof -
  have seven: "binary64 (of_nat 7) = Finite (of_nat 7)" by (rule binary64_of_nat) simp
  from calculateCoveragePercentage_rounded [where C = 7 and U = 93 and r = "jsRuntime quietEnv", OF seven]
    seven
  show ?thesis by auto
qed

text \<open>
  Claim C6 as stated fails on the value: for 7 lines covered and 93 not, the quotient
  \<^verbatim>\<open>7 / 100\<close> is rounded up, and its product by 100 is rounded to the binary64 value
  next above 7, \<open>7 + 1 / 2 ^ 50\<close> (printed \<^verbatim>\<open>7.000000000000001\<close>), where
  \<open>100 * 7 / (7 + 93)\<close> is 7.
\<close>

theorem calculateCoveragePercentage_counterexample:
  "calculateCoveragePercentage (jsRuntime quietEnv) (JNum (Finite 7)) (JNum (Finite 93))
     = JNum (Finite (7 + 1 / 2 ^ 50))
   \<and> calculateCoveragePercentage (jsRuntime quietEnv) (JNum (Finite 7)) (JNum (Finite 93))
     \<noteq> JNum (Finite (100 * 7 / (7 + 93)))"
  by (simp add: calculateCoveragePercentage_7_93)

text \<open>
  Its one caller, \<^verbatim>\<open>getApexClassCoverageDetails\<close>, passes the cells of a parsed row.
  On two strings the sum is their concatenation, read back as a number.
\<close>

lemma calculateCoveragePercentage_strings:
  "calculateCoveragePercentage r (JStr c) (JStr u) =
     (if js_gt_number (StringToNumber r (c @ u)) (Finite 0)
      then JNum (js_mul (js_div (StringToNumber r c) (StringToNumber r (c @ u))) (Finite 100))
      else JNum (Finite 0))"
  by (simp add: calculateCoveragePercentage_def js_plus_def js_gt_zero_def js_times_def
      js_divide_def Let_def)

subsection \<open>Org-wide Apex coverage\<close>

text \<open>
  Over rows whose cells are natural numbers, and at least one row, the sum is exact (below
  \<open>2 ^ 53\<close>) and the result is the mean, rounded.
\<close>

lemma coverage_sum_numeric:
  assumes "\<forall>row \<in> set results. get_prop row ''PercentCovered'' = JNum (Finite (of_nat (pc row)))"
    and "a + sum_list (map pc results) < 2 ^ 53"
  shows "foldl (\<lambda>total result. js_plus r total (get_prop result ''PercentCovered''))
           (JNum (Finite (of_nat a))) results
         = JNum (Finite (of_nat (a + sum_list (map pc results))))"
  using assms
proof (induction results arbitrary: a)
  case Nil
  show ?case by simp
next
  case (Cons row results)
  from Cons.prems(2) have small: "a + pc row < 2 ^ 53" by simp
  have cell: "get_prop row ''PercentCovered'' = JNum (Finite (of_nat (pc row)))"
    using Cons.prems(1) by simp
  have step: "js_plus r (JNum (Finite (of_nat a))) (get_prop row ''PercentCovered'')
      = JNum (Finite (of_nat (a + pc row)))"
    unfolding cell using binary64_of_nat [OF small] by (simp add: js_plus_def)
  have "foldl (\<lambda>total result. js_plus r total (get_prop result ''PercentCovered''))
           (JNum (Finite (of_nat (a + pc row)))) results
         = JNum (Finite (of_nat ((a + pc row) + sum_list (map pc results))))"
    using Cons.prems by (intro Cons.IH) (simp_all add: add.assoc)
  with step show ?case by (simp add: add.assoc)
qed

lemma getOrgWideApexCoverage_mean:
  assumes "orgWideCoverageQuery w = Inr results" "results \<noteq> []"
    and "\<forall>row \<in> set results. get_prop row ''PercentCovered'' = JNum (Finite (of_nat (pc row)))"
    and "sum_list (map pc results) < 2 ^ 53"
  shows "getOrgWideApexCoverage w =
     JNum (binary64 (of_nat (sum_list (map pc results)) / of_nat (length results)))"
proof -
  have "foldl (\<lambda>total result. js_plus (jsRuntime w) total (get_prop result ''PercentCovered''))
           (JNum (Finite (of_nat 0))) results
         = JNum (Finite (of_nat (0 + sum_list (map pc results))))"
    using assms(3,4) by (intro coverage_sum_numeric) simp_all
  with assms(1,2) show ?thesis
    by (simp add: getOrgWideApexCoverage_def queryMetadata_def js_divide_def js_count_def)
qed

text \<open>
  Over rows whose cells are strings the sum is a concatenation, starting with the string
  of the number 0.
\<close>

lemma coverage_sum_strings:
  assumes "\<forall>row \<in> set results. get_prop row ''PercentCovered'' = JStr (pc row)"
  shows "foldl (\<lambda>total result. js_plus r total (get_prop result ''PercentCovered''))
           (JStr a) results
         = JStr (a @ concat (map pc results))"
  using assms
proof (induction results arbitrary: a)
  case Nil
  show ?case by simp
next
  case (Cons row results)
  then show ?case by (simp add: js_plus_def)
qed

lemma getOrgWideApexCoverage_strings:
  assumes "orgWideCoverageQuery w = Inr (row # rows)"
    and "\<forall>x \<in> set (row # rows). get_prop x ''PercentCovered'' = JStr (pc x)"
  shows "getOrgWideApexCoverage w =
     JNum (js_div (StringToNumber (jsRuntime w)
                     (NumberToString (jsRuntime w) (Finite 0) @ concat (map pc (row # rows))))
                  (Finite (of_nat (length (row # rows)))))"
proof -
  from assms(2) have first: "get_prop row ''PercentCovered'' = JStr (pc row)"
    and others: "\<forall>x \<in> set rows. get_prop x ''PercentCovered'' = JStr (pc x)"
    by simp_all
  from coverage_sum_strings [OF others, of "jsRuntime w" "NumberToString (jsRuntime w) (Finite 0) @ pc row"]
    first assms(1)
  show ?thesis
    by (simp add: getOrgWideApexCoverage_def queryMetadata_def js_divide_def js_count_def js_plus_def)
qed

text \<open>\<^verbatim>\<open>null\<close> comes back only when the query helper throws.\<close>

lemma getOrgWideApexCoverage_thrown:
  "getOrgWideApexCoverage (w\<lparr>orgWideCoverageQuery := Inl parseFailed\<rparr>) = JNull"
  by (simp add: getOrgWideApexCoverage_def queryMetadata_def handleQueryError_def parseFailed_def)

lemma getOrgWideApexCoverage_failed_command:
  "getOrgWideApexCoverage (w\<lparr>orgWideCoverageQuery := Inl commandFailed\<rparr>) = JNum NaN"
  by (simp add: getOrgWideApexCoverage_def queryMetadata_def handleQueryError_def commandFailed_def
      js_divide_def js_count_def)

text \<open>
  Claim C8, at the input where the code departs from it: the query returns no row. The
  sum 0 is divided by the length 0, and the function returns \<^verbatim>\<open>NaN\<close>, not
  \<^verbatim>\<open>null\<close>.
\<close>

theorem getOrgWideApexCoverage_no_rows:
  "getOrgWideApexCoverage (w\<lparr>orgWideCoverageQuery := Inr []\<rparr>) = JNum NaN"
  by (simp add: getOrgWideApexCoverage_def queryMetadata_def js_divide_def js_count_def)

subsection \<open>Component inventory\<close>

lemma componentStep_other:
  "k \<noteq> dataPoint \<Longrightarrow> componentStep queryResults errs m dataPoint k = m k"
  by (simp add: componentStep_def split: option.splits list.splits)

lemma componentStep_entry:
  assumes "componentStep queryResults errs m dataPoint k = Some cs"
  shows "m k = Some cs \<or>
     (\<exists>first rest. queryResults k = Some (first # rest) \<and> Total cs = length (first # rest)
        \<and> LastModifiedDate cs = get_prop first ''LastModifiedDate'')"
  using assms
  by (cases "k = dataPoint") (auto simp: componentStep_def split: option.splits list.splits if_splits)

lemma foldl_componentStep_entry:
  assumes "foldl (componentStep queryResults errs) m selected k = Some cs"
  shows "m k = Some cs \<or>
     (\<exists>first rest. queryResults k = Some (first # rest) \<and> Total cs = length (first # rest)
        \<and> LastModifiedDate cs = get_prop first ''LastModifiedDate'')"
  using assms
proof (induction selected arbitrary: m)
  case Nil
  then show ?case by simp
next
  case (Cons dataPoint selected)
  from Cons.IH [of "componentStep queryResults errs m dataPoint"] Cons.prems
  have "componentStep queryResults errs m dataPoint k = Some cs \<or>
     (\<exists>first rest. queryResults k = Some (first # rest) \<and> Total cs = length (first # rest)
        \<and> LastModifiedDate cs = get_prop first ''LastModifiedDate'')"
    by simp
  then show ?case using componentStep_entry by blast
qed

lemma componentStep_stores:
  assumes "queryResults k = Some (first # rest)" and "\<not> errorFor errs k"
  shows "componentStep queryResults errs m k k =
     Some \<lparr>Total = length (first # rest), LastModifiedDate = get_prop first ''LastModifiedDate''\<rparr>"
  using assms by (simp add: componentStep_def)

lemma foldl_componentStep_stores:
  assumes rows: "queryResults k = Some (first # rest)" and kept: "\<not> errorFor errs k"
    and "k \<in> set selected \<or>
       m k = Some \<lparr>Total = length (first # rest), LastModifiedDate = get_prop first ''LastModifiedDate''\<rparr>"
  shows "foldl (componentStep queryResults errs) m selected k =
     Some \<lparr>Total = length (first # rest), LastModifiedDate = get_prop first ''LastModifiedDate''\<rparr>"
  using assms(3)
proof (induction selected arbitrary: m)
  case Nil
  then show ?case by simp
next
  case (Cons dataPoint selected)
  let ?v = "\<lparr>Total = length (first # rest), LastModifiedDate = get_prop first ''LastModifiedDate''\<rparr>"
  have "k \<in> set selected \<or> componentStep queryResults errs m dataPoint k = Some ?v"
  proof (cases "k = dataPoint")
    case True
    with rows kept show ?thesis by (simp add: componentStep_stores)
  next
    case False
    with Cons.prems show ?thesis by (auto simp: componentStep_other)
  qed
  then have "foldl (componentStep queryResults errs) (componentStep queryResults errs m dataPoint) selected k
      = Some ?v"
    by (rule Cons.IH)
  then show ?case by simp
qed

text \<open>
  Claim C10. A data point whose query returned no row has no entry in the summary; every
  entry of the summary belongs to a data point with at least one row, counts its rows
  (so \<^verbatim>\<open>Total\<close> is at least 1) and carries the first row's
  \<^verbatim>\<open>LastModifiedDate\<close>; and a selected data point with rows, which no element of
  \<^verbatim>\<open>errors\<close> names, has that entry.
\<close>

theorem calculateComponentSummary_entries:
  "(queryResults k = Some [] \<longrightarrow> calculateComponentSummary selected queryResults errs k = None)
   \<and> (\<forall>cs. calculateComponentSummary selected queryResults errs k = Some cs \<longrightarrow>
         (\<exists>first rest. queryResults k = Some (first # rest) \<and> Total cs = length (first # rest)
            \<and> 1 \<le> Total cs \<and> LastModifiedDate cs = get_prop first ''LastModifiedDate''))
   \<and> (\<forall>first rest. k \<in> set selected \<and> queryResults k = Some (first # rest) \<and> \<not> errorFor errs k \<longrightarrow>
         calculateComponentSummary selected queryResults errs k =
           Some \<lparr>Total = length (first # rest), LastModifiedDate = get_prop first ''LastModifiedDate''\<rparr>)"
proof -
  have entry: "\<exists>first rest. queryResults k = Some (first # rest) \<and> Total cs = length (first # rest)
            \<and> 1 \<le> Total cs \<and> LastModifiedDate cs = get_prop first ''LastModifiedDate''"
    if "calculateComponentSummary selected queryResults errs k = Some cs" for cs
  proof -
    from that have "foldl (componentStep queryResults errs) Map.empty selected k = Some cs"
      by (simp add: calculateComponentSummary_def)
    from foldl_componentStep_entry [OF this]
    obtain first rest where "queryResults k = Some (first # rest)"
      "Total cs = length (first # rest)" "LastModifiedDate cs = get_prop first ''LastModifiedDate''"
      by auto
    then show ?thesis by auto
  qed
  have omitted: "calculateComponentSummary selected queryResults errs k = None"
    if "queryResults k = Some []"
  proof (cases "calculateComponentSummary selected queryResults errs k")
    case None
    then show ?thesis .
  next
    case (Some cs)
    from entry [OF Some] that show ?thesis by simp
  qed
  have stored: "calculateComponentSummary selected queryResults errs k =
           Some \<lparr>Total = length (first # rest), LastModifiedDate = get_prop first ''LastModifiedDate''\<rparr>"
    if "k \<in> set selected" "queryResults k = Some (first # rest)" "\<not> errorFor errs k" for first rest
    unfolding calculateComponentSummary_def
    using that by (intro foldl_componentStep_stores) simp_all
  from entry omitted stored show ?thesis by blast
qed

text \<open>
  Two data points: three rows, the most recent modified on 2024-01-03, and no row.
\<close>

theorem calculateComponentSummary_witness:
  "calculateComponentSummary [''Type1'', ''Type2'']
      [''Type1'' \<mapsto> [[(''LastModifiedDate'', JStr ''2024-01-03'')],
                       [(''LastModifiedDate'', JStr ''2024-01-02'')],
                       [(''LastModifiedDate'', JStr ''2024-01-01'')]],
       ''Type2'' \<mapsto> []] [] ''Type1''
     = Some \<lparr>Total = 3, LastModifiedDate = JStr ''2024-01-03''\<rparr>
   \<and> calculateComponentSummary [''Type1'', ''Type2'']
      [''Type1'' \<mapsto> [[(''LastModifiedDate'', JStr ''2024-01-03'')],
                       [(''LastModifiedDate'', JStr ''2024-01-02'')],
                       [(''LastModifiedDate'', JStr ''2024-01-01'')]],
       ''Type2'' \<mapsto> []] [] ''Type2'' = None"
proof -
  let ?qr = "[''Type1'' \<mapsto> [[(''LastModifiedDate'', JStr ''2024-01-03'')],
                       [(''LastModifiedDate'', JStr ''2024-01-02'')],
                       [(''LastModifiedDate'', JStr ''2024-01-01'')]],
       ''Type2'' \<mapsto> []] :: string \<rightharpoonup> js_object list"
  have empty: "?qr ''Type2'' = Some []" by simp
  have rows: "?qr ''Type1'' = Some [[(''LastModifiedDate'', JStr ''2024-01-03'')],
                       [(''LastModifiedDate'', JStr ''2024-01-02'')],
                       [(''LastModifiedDate'', JStr ''2024-01-01'')]]" by simp
  have kept: "\<not> errorFor [] ''Type1''" by (simp add: errorFor_def)
  from calculateComponentSummary_entries
    [where queryResults = ?qr and k = "''Type2''" and selected = "[''Type1'', ''Type2'']" and errs = "[]"]
    empty
  have none: "calculateComponentSummary [''Type1'', ''Type2''] ?qr [] ''Type2'' = None"
    by blast
  from calculateComponentSummary_entries
    [where queryResults = ?qr and k = "''Type1''" and selected = "[''Type1'', ''Type2'']" and errs = "[]"]
    rows kept
  have some: "calculateComponentSummary [''Type1'', ''Type2''] ?qr [] ''Type1''
     = Some \<lparr>Total = 3, LastModifiedDate = JStr ''2024-01-03''\<rparr>"
    by (simp add: get_prop_def)
  from none some show ?thesis by blast
qed

text \<open>
  The same through a whole run, the second type failing as an unsupported type: the
  failure is a skip, not an entry of the error list.
\<close>

lemma unsupported_type_is_skipped:
  "case summarizeOrg 0
          (quietEnv\<lparr>dataPointQuery := (\<lambda>i dataPoint.
             if dataPoint = ''Type1''
             then Inr [[(''LastModifiedDate'', JStr ''2024-01-03'')],
                       [(''LastModifiedDate'', JStr ''2024-01-02'')],
                       [(''LastModifiedDate'', JStr ''2024-01-01'')]]
             else Inl \<lparr>message = ''Command failed'',
                       stderr = Some ''sObject type Type2 is not supported''\<rparr>)\<rparr>)
          (noPhases\<lparr>metadata := Some ''Type1,Type2''\<rparr>) None of
     Some (Inr r) \<Rightarrow>
       errors r = [] \<and> ResultState (summary r) = ''Completed'' \<and>
       (case Metadata (summary r) of
          Some m \<Rightarrow> m ''Type1'' = Some \<lparr>Total = 3, LastModifiedDate = JStr ''2024-01-03''\<rparr>
                    \<and> m ''Type2'' = None
        | None \<Rightarrow> False)
   | _ \<Rightarrow> False"
  by (simp add: run_defs sample_defs queryDataPoints_def queryMetadata_def handleQueryError_def
      calculateComponentSummary_def componentStep_def errorFor_def trim_def is_space_def get_prop_def)

subsection \<open>Tenant identity\<close>

text \<open>
  Claim C9, as the code has it. When the tenant identity cannot be resolved,
  \<^verbatim>\<open>getOrgInfo\<close> returns the identity of empty strings and the run goes on: the only
  errors a run can stop with are those of creating the directory, of the clean-up and of
  the write; a run without the test phase whose file system calls succeed returns; and a
  run that returns without a summary passed in yields a report whose identity is empty,
  written to the output directory when one was given.
\<close>

theorem identity_failure_does_not_halt:
  assumes "orgDisplay w = Inl e"
  shows "getOrgInfo w = emptyOrgInfo
     \<and> (\<forall>thrown. summarizeOrg fuel w fl given = Some (Inl thrown) \<longrightarrow>
           (\<not> existsDir w \<and> mkdirDir w = Some thrown)
           \<or> (\<not> keepdata fl \<and> cleanUpDirectory w = Some thrown)
           \<or> (given_directory (outputdirectory fl) \<and> writeSummary w = Some thrown))
     \<and> (\<not> tests fl \<and> (existsDir w \<or> mkdirDir w = None) \<and> (keepdata fl \<or> cleanUpDirectory w = None)
           \<and> writeSummary w = None \<longrightarrow>
           (\<exists>r. summarizeOrg fuel w fl given = Some (Inr r)))
     \<and> (\<forall>r. summarizeOrg fuel w fl None = Some (Inr r) \<longrightarrow>
           tenant (summary r) = ([], [], [])
           \<and> (given_directory (outputdirectory fl) \<longrightarrow> (\<exists>path. persisted r = Some (path, summary r))))"
proof -
  have info: "getOrgInfo w = emptyOrgInfo"
    using assms by (simp add: getOrgInfo_def)
  have report: "tenant (summary r) = ([], [], [])
       \<and> (given_directory (outputdirectory fl) \<longrightarrow> (\<exists>path. persisted r = Some (path, summary r)))"
    if run: "summarizeOrg fuel w fl None = Some (Inr r)" for r
  proof -
    from summarizeOrg_returns [OF run] obtain collected where
      phases: "runPhases fuel w fl (initialSummary w None, []) = Some (collected, errors r)" and
      final: "summary r = collected\<lparr>ResultState := (if errors r = [] then ''Completed'' else ''Failure'')\<rparr>" and
      kept: "persisted r = None \<or> (\<exists>path. persisted r = Some (path, summary r))" and
      written: "given_directory (outputdirectory fl) \<longrightarrow> persisted r \<noteq> None"
      by blast
    from runPhases_tenant [OF phases] have "tenant collected = tenant (initialSummary w None)"
      by simp
    with final info have "tenant (summary r) = ([], [], [])"
      by (simp add: tenant_def initialSummary_def buildBaseSummary_def emptyOrgInfo_def)
    with kept written show ?thesis by blast
  qed
  from info report summarizeOrg_thrown [of fuel w fl given]
    summarizeOrg_total_without_tests [of fl w fuel given]
  show ?thesis by blast
qed

theorem identity_failure_witness:
  "orgDisplay (quietEnv\<lparr>orgDisplay := Inl commandFailed\<rparr>) = Inl commandFailed
   \<and> getOrgInfo (quietEnv\<lparr>orgDisplay := Inl commandFailed\<rparr>) = emptyOrgInfo
   \<and> (\<exists>r. summarizeOrg 0 (quietEnv\<lparr>orgDisplay := Inl commandFailed\<rparr>) noPhases None = Some (Inr r)
          \<and> tenant (summary r) = ([], [], [])
          \<and> persisted r = Some (''out//1700000000000/orgsummary.json'', summary r))"
proof -
  let ?w = "quietEnv\<lparr>orgDisplay := Inl commandFailed\<rparr>"
  have failed: "orgDisplay ?w = Inl commandFailed" by simp
  have run: "summarizeOrg 0 ?w noPhases None =
     Some (Inr \<lparr>summary =
                  \<lparr>Timestamp = ''1700000000000'', ResultState = ''Completed'', OrgId = [],
                   Username = [], OrgInstanceURL = [], HealthCheck = None, Limits = None,
                   Code = None, Tests = None, Metadata = None\<rparr>,
                errors = [], cleaned = True,
                persisted = Some (''out//1700000000000/orgsummary.json'',
                  \<lparr>Timestamp = ''1700000000000'', ResultState = ''Completed'', OrgId = [],
                   Username = [], OrgInstanceURL = [], HealthCheck = None, Limits = None,
                   Code = None, Tests = None, Metadata = None\<rparr>)\<rparr>)"
    by (simp add: run_defs sample_defs emptyOrgInfo_def)
  from identity_failure_does_not_halt [OF failed, of 0 noPhases None] run failed
  show ?thesis by (simp add: tenant_def)
qed

text \<open>
  Claim C9 as stated fails: with the identity unresolved and an output directory given,
  the run returns a report, in state \<^verbatim>\<open>'Completed'\<close>, and writes it.
\<close>

theorem identity_failure_counterexample:
  "summarizeOrg 0 (quietEnv\<lparr>orgDisplay := Inl commandFailed\<rparr>) noPhases None =
     Some (Inr \<lparr>summary =
                  \<lparr>Timestamp = ''1700000000000'', ResultState = ''Completed'', OrgId = [],
                   Username = [], OrgInstanceURL = [], HealthCheck = None, Limits = None,
                   Code = None, Tests = None, Metadata = None\<rparr>,
                errors = [], cleaned = True,
                persisted = Some (''out//1700000000000/orgsummary.json'',
                  \<lparr>Timestamp = ''1700000000000'', ResultState = ''Completed'', OrgId = [],
                   Username = [], OrgInstanceURL = [], HealthCheck = None, Limits = None,
                   Code = None, Tests = None, Metadata = None\<rparr>)\<rparr>)"
  by (simp add: run_defs sample_defs emptyOrgInfo_def)

end
